theory Spec2Isabelle
  imports Complex_Main
begin

section \<open>JavaScript values used by the extension\<close>

text \<open>
  A JavaScript number is modelled exactly: \<open>NaN\<close>, the two infinities, or a finite value
  kept as a rational. IEEE doubles agree with this on every integer of magnitude below
  \<open>2^53\<close> and on every quotient of such an integer by a power of two, which covers the
  identifiers, hour counts and memory figures the extension handles; rounding of larger or
  non-dyadic values is not modelled, and \<open>-0\<close> is identified with \<open>0\<close> (the code
  only compares, tests truthiness and prints them, where the two agree).
  A string is a list of 8-bit characters: ASCII text as it is, other text as its UTF-8 bytes.
\<close>

datatype jsnum = NaN | Fin rat | PosInf | NegInf

text \<open>\<open>a === b\<close> on numbers: \<open>NaN\<close> equals nothing.\<close>

definition jsStrictEq :: "jsnum \<Rightarrow> jsnum \<Rightarrow> bool" where
  "jsStrictEq a b = (a \<noteq> NaN \<and> a = b)"

text \<open>\<open>a < b\<close> on numbers: false whenever an operand is \<open>NaN\<close>.\<close>

fun jsLess :: "jsnum \<Rightarrow> jsnum \<Rightarrow> bool" where
  "jsLess NaN _ = False"
| "jsLess _ NaN = False"
| "jsLess (Fin a) (Fin b) = (a < b)"
| "jsLess (Fin a) PosInf = True"
| "jsLess (Fin a) NegInf = False"
| "jsLess PosInf _ = False"
| "jsLess NegInf (Fin b) = True"
| "jsLess NegInf PosInf = True"
| "jsLess NegInf NegInf = False"

definition jsGreater :: "jsnum \<Rightarrow> jsnum \<Rightarrow> bool" where
  "jsGreater a b = jsLess b a"

definition jsLessEq :: "jsnum \<Rightarrow> jsnum \<Rightarrow> bool" where
  "jsLessEq a b = (jsLess a b \<or> jsStrictEq a b)"

definition isNaN :: "jsnum \<Rightarrow> bool" where
  "isNaN a = (a = NaN)"

text \<open>Truthiness of a number (\<open>x ? .. : ..\<close>, \<open>x || y\<close>): \<open>0\<close> and \<open>NaN\<close> are falsy.\<close>

definition truthyNum :: "jsnum \<Rightarrow> bool" where
  "truthyNum a = (a \<noteq> NaN \<and> a \<noteq> Fin 0)"

text \<open>Truthiness of an optional string: \<open>undefined\<close> and the empty string are falsy.\<close>

definition truthyStr :: "string option \<Rightarrow> bool" where
  "truthyStr s = (case s of None \<Rightarrow> False | Some t \<Rightarrow> t \<noteq> [])"

subsection \<open>Strings: \<open>trim\<close>, \<open>split\<close>, \<open>toString\<close> of an integer\<close>

text \<open>
  White space: the ASCII members of ECMAScript's WhiteSpace and LineTerminator. The other
  members (U+00A0, U+1680, U+2000 to U+200A, U+2028, U+2029, U+202F, U+205F, U+3000 and
  U+FEFF) are not modelled: \<open>trim\<close> and the parsers below are those of the source on
  strings that hold none of them.
\<close>

definition isWhite :: "char \<Rightarrow> bool" where
  "isWhite c = (c \<in> {CHR 0x09, CHR 0x0A, CHR 0x0B, CHR 0x0C, CHR 0x0D, CHR '' ''})"

definition trim :: "string \<Rightarrow> string" where
  "trim s = rev (dropWhile isWhite (rev (dropWhile isWhite s)))"

text \<open>\<open>s.split(sep)\<close> for a one-character separator; \<open>"".split("|")\<close> is \<open>[""]\<close>.\<close>

fun split :: "char \<Rightarrow> string \<Rightarrow> string list" where
  "split sep [] = [[]]"
| "split sep (c # cs) =
     (if c = sep then [] # split sep cs
      else (case split sep cs of
              [] \<Rightarrow> [[c]]
            | w # ws \<Rightarrow> (c # w) # ws))"

definition digitChar :: "nat \<Rightarrow> char" where
  "digitChar d = ''0123456789'' ! d"

text \<open>\<open>n.toString()\<close> for a non-negative integer: its decimal digits, no leading zero.\<close>

fun natToString :: "nat \<Rightarrow> string" where
  "natToString n =
     (if n < 10 then [digitChar n] else natToString (n div 10) @ [digitChar (n mod 10)])"

declare natToString.simps [simp del]

definition intToString :: "int \<Rightarrow> string" where
  "intToString i = (if i < 0 then CHR ''-'' # natToString (nat (- i)) else natToString (nat i))"

subsection \<open>\<open>parseInt(s, 10)\<close>, \<open>parseFloat(s)\<close> and \<open>Number(s)\<close>\<close>

definition digitVal :: "char \<Rightarrow> nat option" where
  "digitVal c =
     (let n = (of_char c :: nat) in if 48 \<le> n \<and> n \<le> 57 then Some (n - 48) else None)"

definition isDigit :: "char \<Rightarrow> bool" where
  "isDigit c = (digitVal c \<noteq> None)"

definition digitsVal :: "string \<Rightarrow> nat" where
  "digitsVal ds = foldl (\<lambda>a c. 10 * a + (of_char c - 48)) 0 ds"

text \<open>An optional sign: whether it is a minus, and what follows it.\<close>

fun signOf :: "string \<Rightarrow> bool \<times> string" where
  "signOf [] = (False, [])"
| "signOf (c # cs) =
     (if c = CHR ''-'' then (True, cs)
      else if c = CHR ''+'' then (False, cs)
      else (False, c # cs))"

definition signed :: "bool \<Rightarrow> rat \<Rightarrow> rat" where
  "signed neg q = (if neg then - q else q)"

text \<open>
  \<open>parseInt(s, 10)\<close>: skip leading white space, read an optional sign and the longest run
  of decimal digits, ignore the rest; \<open>NaN\<close> when there is no digit. The value is kept
  exact; the source rounds it to a double, which changes it only beyond \<open>2^53\<close>.
\<close>

definition parseInt10 :: "string \<Rightarrow> jsnum" where
  "parseInt10 s =
     (let (neg, u) = signOf (dropWhile isWhite s);
          ds = takeWhile isDigit u
      in if ds = [] then NaN else Fin (signed neg (of_nat (digitsVal ds))))"

definition pow10 :: "int \<Rightarrow> rat" where
  "pow10 e = (if 0 \<le> e then 10 ^ nat e else 1 / 10 ^ nat (- e))"

text \<open>ExponentPart (\<open>e\<close> or \<open>E\<close>, an optional sign, digits): the exponent and the rest;
  exponent \<open>0\<close> and the input untouched when there is none.\<close>

definition exponentPart :: "string \<Rightarrow> int \<times> string" where
  "exponentPart r =
     (case r of
        [] \<Rightarrow> (0, r)
      | e # cs \<Rightarrow>
          if e = CHR ''e'' \<or> e = CHR ''E'' then
            (let (neg, u) = signOf cs; ds = takeWhile isDigit u
             in if ds = [] then (0, r)
                else ((if neg then - int (digitsVal ds) else int (digitsVal ds)),
                      dropWhile isDigit u))
          else (0, r))"

text \<open>
  The longest prefix that is a StrDecimalLiteral (sign, then \<open>Infinity\<close> or digits with an
  optional fraction and exponent), as its value and the text after it.
\<close>

definition decimalLiteral :: "string \<Rightarrow> (jsnum \<times> string) option" where
  "decimalLiteral s =
     (let (neg, u) = signOf s in
      if take 8 u = ''Infinity'' then Some (if neg then NegInf else PosInf, drop 8 u)
      else
        let ip = takeWhile isDigit u;
            r1 = dropWhile isDigit u;
            (fp, r2) = (case r1 of
                          [] \<Rightarrow> ([], r1)
                        | c # cs \<Rightarrow>
                            if c = CHR ''.'' then (takeWhile isDigit cs, dropWhile isDigit cs)
                            else ([], r1))
        in if ip = [] \<and> fp = [] then None
           else
             let (ex, r3) = exponentPart r2
             in Some (Fin (signed neg (of_nat (digitsVal (ip @ fp)) / 10 ^ length fp * pow10 ex)),
                      r3))"

definition parseFloat :: "string \<Rightarrow> jsnum" where
  "parseFloat s =
     (case decimalLiteral (dropWhile isWhite s) of
        None \<Rightarrow> NaN
      | Some (v, _) \<Rightarrow> v)"

text \<open>Digits of the radix literals \<open>0x..\<close>, \<open>0o..\<close>, \<open>0b..\<close>.\<close>

definition radixDigit :: "nat \<Rightarrow> char \<Rightarrow> nat option" where
  "radixDigit r c =
     (let n = (of_char c :: nat);
          v = (if 48 \<le> n \<and> n \<le> 57 then Some (n - 48)
               else if 97 \<le> n \<and> n \<le> 102 then Some (n - 87)
               else if 65 \<le> n \<and> n \<le> 70 then Some (n - 55)
               else None)
      in case v of None \<Rightarrow> None | Some d \<Rightarrow> if d < r then Some d else None)"

definition radixOf :: "char \<Rightarrow> nat option" where
  "radixOf x =
     (if x = CHR ''x'' \<or> x = CHR ''X'' then Some 16
      else if x = CHR ''o'' \<or> x = CHR ''O'' then Some 8
      else if x = CHR ''b'' \<or> x = CHR ''B'' then Some 2
      else None)"

fun nonDecimalLiteral :: "string \<Rightarrow> nat option" where
  "nonDecimalLiteral (z # x # d # ds) =
     (if z = CHR ''0'' then
        (case radixOf x of
           None \<Rightarrow> None
         | Some r \<Rightarrow>
             if list_all (\<lambda>c. radixDigit r c \<noteq> None) (d # ds)
             then Some (foldl (\<lambda>a c. r * a + (case radixDigit r c of Some v \<Rightarrow> v | None \<Rightarrow> 0)) 0 (d # ds))
             else None)
      else None)"
| "nonDecimalLiteral _ = None"

text \<open>
  \<open>Number(x)\<close> for an optional string: \<open>undefined\<close> gives \<open>NaN\<close>; a string is trimmed,
  the empty string is \<open>0\<close>, a whole numeric literal is its value, anything else \<open>NaN\<close>.
\<close>

definition Number :: "string option \<Rightarrow> jsnum" where
  "Number x =
     (case x of
        None \<Rightarrow> NaN
      | Some s \<Rightarrow>
          (let t = trim s in
           if t = [] then Fin 0
           else (case nonDecimalLiteral t of
                   Some n \<Rightarrow> Fin (of_nat n)
                 | None \<Rightarrow>
                     (case decimalLiteral t of
                        Some (v, []) \<Rightarrow> v
                      | _ \<Rightarrow> NaN))))"

section \<open>The create-instance wizard (\<open>createInstanceMultiStep\<close>)\<close>

subsection \<open>Data\<close>

text \<open>The enum \<open>CreateInstanceStep\<close>; \<open>stepIndex\<close> is the number TypeScript gives each member.\<close>

datatype CreateInstanceStep =
  SelectPlan | SelectOS | EnterTime | SelectSSHKey | SelectBootScript | Done | Cancelled

fun stepIndex :: "CreateInstanceStep \<Rightarrow> nat" where
  "stepIndex SelectPlan = 0"
| "stepIndex SelectOS = 1"
| "stepIndex EnterTime = 2"
| "stepIndex SelectSSHKey = 3"
| "stepIndex SelectBootScript = 4"
| "stepIndex Done = 5"
| "stepIndex Cancelled = 6"

text \<open>\<open>currentStep--\<close>, which the code runs only when \<open>currentStep > SelectPlan\<close>.\<close>

fun stepDec :: "CreateInstanceStep \<Rightarrow> CreateInstanceStep" where
  "stepDec SelectPlan = SelectPlan"
| "stepDec SelectOS = SelectPlan"
| "stepDec EnterTime = SelectOS"
| "stepDec SelectSSHKey = EnterTime"
| "stepDec SelectBootScript = SelectSSHKey"
| "stepDec Done = SelectBootScript"
| "stepDec Cancelled = Done"

text \<open>The interface \<open>Plan\<close> of config.ts: the request the wizard builds.\<close>

record Plan =
  id_P :: jsnum
  os_P :: jsnum
  time :: jsnum
  sshKey :: jsnum
  bootScript :: string

text \<open>
  A quick-pick item. \<open>BackItem\<close> is the one object \<open>backItem\<close>, which the code recognises
  by identity (\<open>selection === backItem\<close>); every other item is its label and its optional
  description.
\<close>

datatype item = BackItem | Item string "string option"

text \<open>The label of \<open>backItem\<close>, "$(arrow-left) " followed by four Chinese characters.\<close>

definition backLabel :: string where
  "backLabel = ''$(arrow-left) '' @
     [CHR 0xE8, CHR 0xBF, CHR 0x94, CHR 0xE5, CHR 0x9B, CHR 0x9E,
      CHR 0xE4, CHR 0xB8, CHR 0x8A, CHR 0xE4, CHR 0xB8, CHR 0x80, CHR 0xE7, CHR 0xBA, CHR 0xA7]"

text \<open>The label of the "do not use an SSH key" item (three Chinese characters, " SSH Key").\<close>

definition noSSHKeyLabel :: string where
  "noSSHKeyLabel =
     [CHR 0xE4, CHR 0xB8, CHR 0x8D, CHR 0xE4, CHR 0xBD, CHR 0xBF, CHR 0xE7, CHR 0x94, CHR 0xA8]
     @ '' SSH Key''"

text \<open>The label of the "do not use a boot script" item (seven Chinese characters).\<close>

definition noBootScriptLabel :: string where
  "noBootScriptLabel =
     [CHR 0xE4, CHR 0xB8, CHR 0x8D, CHR 0xE4, CHR 0xBD, CHR 0xBF, CHR 0xE7, CHR 0x94, CHR 0xA8,
      CHR 0xE5, CHR 0x90, CHR 0xAF, CHR 0xE5, CHR 0x8A, CHR 0xA8, CHR 0xE8, CHR 0x84, CHR 0x9A,
      CHR 0xE6, CHR 0x9C, CHR 0xAC]"

fun itemLabel :: "item \<Rightarrow> string" where
  "itemLabel BackItem = backLabel"
| "itemLabel (Item l d) = l"

fun itemDescription :: "item \<Rightarrow> string option" where
  "itemDescription BackItem = None"
| "itemDescription (Item l d) = d"

text \<open>An operating system offered by a plan, and a stored SSH key.\<close>

record OsEntry =
  id_O :: nat
  name_O :: string

record SSHKeyEntry =
  id_K :: nat
  name_K :: string
  created_at_K :: string

text \<open>
  The \<open>os\<close> field of a plan of the catalog: absent, the "|"-separated identifier string
  the remote sends, or the array of systems \<open>updateConfig\<close> replaces it with.
\<close>

datatype os_field = OsAbsent | OsString string | OsArray "OsEntry list"

record PlanEntry =
  id_C :: nat
  name_C :: string
  os_C :: os_field

text \<open>\<open>!p.os\<close>: absent or the empty string.\<close>

fun osFalsy :: "os_field \<Rightarrow> bool" where
  "osFalsy OsAbsent = True"
| "osFalsy (OsString s) = (s = [])"
| "osFalsy (OsArray l) = False"

text \<open>\<open>Array.isArray(p.os) ? p.os : []\<close>\<close>

fun osArrayOrEmpty :: "os_field \<Rightarrow> OsEntry list" where
  "osArrayOrEmpty (OsArray l) = l"
| "osArrayOrEmpty _ = []"

text \<open>An instance as the store keeps it.\<close>

record Instance =
  id_I :: nat
  creation_at :: string
  expiration_at :: string

text \<open>The interface \<open>InstanceState\<close> of config.ts; the inner \<open>state\<close> object is
  optional, as the code reads it with \<open>?.\<close>.\<close>

record Memory =
  memtotal :: string
  memfree :: string
  memavailable :: string

record Traffic =
  traffic_in :: jsnum
  traffic_out :: jsnum
  traffic_total :: jsnum

record PowerState =
  state :: string
  cpu :: jsnum
  memory :: Memory
  traffic :: Traffic

record InstanceState =
  status :: string
  state_S :: "PowerState option"

text \<open>
  \<open>evoPermissions\<close>: the maximum duration and, once \<open>updateConfig\<close> has split it, the
  allow-list of plan identifiers (\<open>None\<close> when absent or empty).
\<close>

record EvoPermissions =
  max_time :: jsnum
  allow_packages :: "string list option"

text \<open>
  The fields of the singleton \<open>CONFIG\<close> that the modelled code reads or writes.
  \<open>instanceState = None\<close> is the empty object \<open>{}\<close>; \<open>updateStatusBarInterval\<close> is the
  timer handle or \<open>null\<close>; \<open>defaultPlan = None\<close> is a missing default plan;
  \<open>bootScriptItems\<close> stands for what
  \<open>getScriptList(CONFIG.bootScriptPath)\<close> returns when the path is set and exists, and is
  empty otherwise.
\<close>

record CONFIG =
  hasEvoPermission :: bool
  evoPermissions :: EvoPermissions
  instanceList :: "Instance list"
  planList :: "PlanEntry list"
  sshKeyList :: "SSHKeyEntry list"
  instanceState :: "InstanceState option"
  doNotRemindExpiration :: bool
  updateStatusBarInterval :: "nat option"
  defaultPlan :: "Plan option"
  bootScriptItems :: "item list"

text \<open>
  The messages of the wizard. Each constructor is one string literal (or template) of the
  source: the two \<open>message\<close> fields of the early returns, the two of \<open>updateView\<close>, and
  the three validation messages of the duration step.
\<close>

datatype wizard_message =
    NoEvoPermission
  | NoPlanAvailable
  | OsListNotFound jsnum
  | NoOsForPlan jsnum
  | NotPositiveInteger
  | DecimalsNotSupported
  | ExceedsMaxTime jsnum

text \<open>
  \<open>CreateInstanceResult\<close>. Its \<open>plan\<close> field is \<open>null\<close> unless the status is
  \<open>completed\<close>, and then it is the wizard's one \<open>plan\<close> object itself (a reference,
  not a copy), which \<open>committed\<close> below reads.
\<close>

datatype CreateInstanceResult = Completed | CancelledResult | ErrorResult wizard_message

text \<open>What the input box shows: nothing, or the text of a number.\<close>

datatype input_text = NoText | NumberText jsnum

text \<open>
  The closure state of one run: the variables \<open>plan\<close>, \<open>currentStep\<close>,
  \<open>errorMessage\<close>, \<open>isCompleted\<close>; every value passed to the promise's \<open>resolve\<close>,
  in order; and the quick pick (its \<open>step\<close>, \<open>items\<close> and \<open>value\<close>, whether it is
  visible, whether a \<open>show()\<close> is waiting for its hide event, whether it is disposed,
  how often \<open>show()\<close> ran).
\<close>

record wizard =
  plan :: Plan
  currentStep :: CreateInstanceStep
  errorMessage :: "wizard_message option"
  isCompleted :: bool
  resolveCalls :: "CreateInstanceResult list"
  qp_step :: nat
  qp_items :: "item list"
  qp_value :: input_text
  visible :: bool
  expectingHide :: bool
  disposed :: bool
  showCount :: nat

subsection \<open>The promise\<close>

text \<open>\<open>resolve(r)\<close>. A promise settles at the first call; later calls change nothing.\<close>

definition resolve :: "CreateInstanceResult \<Rightarrow> wizard \<Rightarrow> wizard" where
  "resolve r w = w\<lparr>resolveCalls := resolveCalls w @ [r]\<rparr>"

definition settled :: "wizard \<Rightarrow> CreateInstanceResult option" where
  "settled w = (case resolveCalls w of [] \<Rightarrow> None | r # _ \<Rightarrow> Some r)"

text \<open>
  The request a caller receives: the \<open>plan\<close> object of a run that settled as completed.
  The result passed to \<open>resolve\<close> holds the object of the run itself, not a copy of it, so
  the caller reads what the fields of \<open>plan\<close> hold at the time it reads them.
\<close>

definition committed :: "wizard \<Rightarrow> Plan option" where
  "committed w = (if settled w = Some Completed then Some (plan w) else None)"

subsection \<open>The quick pick\<close>

text \<open>
  The handler of \<open>onDidHide\<close> (lines 305 to 313). After \<open>dispose()\<close> no event reaches
  a handler. (Where the editor delivers the hide event a second time from within
  \<open>dispose()\<close>, the handler's second run calls at most \<open>resolve\<close> once more, on a promise
  that its first run has left settled.)
\<close>

definition onDidHide :: "wizard \<Rightarrow> wizard" where
  "onDidHide w =
     (let w1 = (if \<not> isCompleted w then resolve CancelledResult w else w)
      in w1\<lparr>disposed := True\<rparr>)"

text \<open>
  \<open>quickPick.show()\<close> and \<open>quickPick.hide()\<close>, as the editor implements them:
  \<open>show()\<close> makes the quick pick visible and expects one hide event; \<open>hide()\<close> only
  asks the user interface to hide it. The hide event itself comes later, as an event of its
  own (see \<open>fire\<close>).
\<close>

definition qp_show :: "wizard \<Rightarrow> wizard" where
  "qp_show w = w\<lparr>visible := True, expectingHide := True, showCount := showCount w + 1\<rparr>"

definition qp_hide :: "wizard \<Rightarrow> wizard" where
  "qp_hide w = w\<lparr>visible := False\<rparr>"

definition planItem :: "PlanEntry \<Rightarrow> item" where
  "planItem p = Item (name_C p) (Some (natToString (id_C p)))"

definition osItem :: "OsEntry \<Rightarrow> item" where
  "osItem o' = Item (name_O o') (Some (natToString (id_O o')))"

definition sshKeyItem :: "SSHKeyEntry \<Rightarrow> item" where
  "sshKeyItem k = Item (name_K k) (Some (natToString (id_K k)))"

text \<open>\<open>p.id === plan.id\<close>\<close>

definition samePlanId :: "Plan \<Rightarrow> PlanEntry \<Rightarrow> bool" where
  "samePlanId pl p = jsStrictEq (Fin (of_nat (id_C p))) (id_P pl)"

text \<open>
  \<open>updateView\<close> (lines 122 to 226), run as one step: the only \<open>await\<close> in it, on the
  script list, is taken as immediate.
\<close>

definition updateView :: "CONFIG \<Rightarrow> wizard \<Rightarrow> wizard" where
  "updateView cfg w0 =
     (let w = w0\<lparr>qp_step := stepIndex (currentStep w0) + 1, errorMessage := None,
                 qp_value := NoText, qp_items := []\<rparr>
      in case currentStep w of
           SelectPlan \<Rightarrow> qp_show (w\<lparr>qp_items := map planItem (planList cfg)\<rparr>)
         | SelectOS \<Rightarrow>
             (case find (samePlanId (plan w)) (planList cfg) of
                None \<Rightarrow> qp_hide (resolve (ErrorResult (OsListNotFound (id_P (plan w)))) w)
              | Some p \<Rightarrow>
                  if osFalsy (os_C p)
                  then qp_hide (resolve (ErrorResult (OsListNotFound (id_P (plan w)))) w)
                  else if osArrayOrEmpty (os_C p) = []
                  then qp_hide (resolve (ErrorResult (NoOsForPlan (id_P (plan w)))) w)
                  else qp_show (w\<lparr>qp_items := BackItem # map osItem (osArrayOrEmpty (os_C p))\<rparr>))
         | EnterTime \<Rightarrow>
             qp_show (w\<lparr>qp_items := [BackItem],
                        qp_value := (if truthyNum (time (plan w))
                                     then NumberText (time (plan w)) else NoText)\<rparr>)
         | SelectSSHKey \<Rightarrow>
             qp_show (w\<lparr>qp_items := BackItem # Item noSSHKeyLabel None
                                       # map sshKeyItem (sshKeyList cfg)\<rparr>)
         | SelectBootScript \<Rightarrow>
             qp_show (w\<lparr>qp_items := BackItem # Item noBootScriptLabel None
                                       # bootScriptItems cfg\<rparr>)
         | Done \<Rightarrow> qp_show w
         | Cancelled \<Rightarrow> qp_show w)"

subsection \<open>Accepting a selection or an input\<close>

text \<open>
  The checks of the duration step (lines 263 to 271) in the order of the source: the
  message of the first failing check, or the parsed number.
\<close>

definition validateTime :: "CONFIG \<Rightarrow> string \<Rightarrow> wizard_message + jsnum" where
  "validateTime cfg v =
     (let timeValue = trim v;
          timeNum = parseInt10 timeValue
      in if isNaN timeNum \<or> jsLessEq timeNum (Fin 0) then Inl NotPositiveInteger
         else if \<not> jsStrictEq timeNum (parseFloat timeValue) then Inl DecimalsNotSupported
         else if jsGreater timeNum (max_time (evoPermissions cfg))
         then Inl (ExceedsMaxTime (max_time (evoPermissions cfg)))
         else Inr timeNum)"

text \<open>
  The handler of \<open>onDidAccept\<close> (lines 229 to 302), given \<open>quickPick.selectedItems[0]\<close>
  and \<open>quickPick.value\<close>.
\<close>

definition onDidAccept :: "CONFIG \<Rightarrow> item option \<Rightarrow> string \<Rightarrow> wizard \<Rightarrow> wizard" where
  "onDidAccept cfg selection v w =
     (if selection = Some BackItem then
        (if stepIndex (currentStep w) > stepIndex SelectPlan
         then updateView cfg (w\<lparr>currentStep := stepDec (currentStep w)\<rparr>)
         else w)
      else
        case currentStep w of
          SelectPlan \<Rightarrow>
            (case selection of
               None \<Rightarrow> w
             | Some it \<Rightarrow>
                 if truthyStr (itemDescription it)
                 then updateView cfg
                        (w\<lparr>plan := (plan w)\<lparr>id_P := Number (itemDescription it)\<rparr>,
                           currentStep := SelectOS\<rparr>)
                 else w)
        | SelectOS \<Rightarrow>
            (case selection of
               None \<Rightarrow> w
             | Some it \<Rightarrow>
                 if truthyStr (itemDescription it)
                 then updateView cfg
                        (w\<lparr>plan := (plan w)\<lparr>os_P := Number (itemDescription it)\<rparr>,
                           currentStep := EnterTime\<rparr>)
                 else w)
        | EnterTime \<Rightarrow>
            (case validateTime cfg v of
               Inl msg \<Rightarrow> updateView cfg (w\<lparr>errorMessage := Some msg\<rparr>)
             | Inr timeNum \<Rightarrow>
                 updateView cfg
                   (w\<lparr>plan := (plan w)\<lparr>time := timeNum\<rparr>, currentStep := SelectSSHKey\<rparr>))
        | SelectSSHKey \<Rightarrow>
            (case selection of
               None \<Rightarrow> w
             | Some it \<Rightarrow>
                 updateView cfg
                   (w\<lparr>plan := (plan w)\<lparr>sshKey :=
                              (if truthyNum (Number (itemDescription it))
                               then Number (itemDescription it) else NaN)\<rparr>,
                      currentStep := SelectBootScript\<rparr>))
        | SelectBootScript \<Rightarrow>
            (case selection of
               None \<Rightarrow> w
             | Some it \<Rightarrow>
                 qp_hide
                   (resolve Completed
                      (w\<lparr>plan := (plan w)\<lparr>bootScript :=
                                 (if itemLabel it = noBootScriptLabel then [] else itemLabel it)\<rparr>,
                         isCompleted := True\<rparr>)))
        | Done \<Rightarrow> w
        | Cancelled \<Rightarrow> w)"

subsection \<open>A run\<close>

text \<open>
  What \<open>createInstanceMultiStep\<close> does before it waits for the user: an early return
  (\<open>Inl\<close>, no quick pick was created), or the run after its first \<open>updateView\<close>.
  The modal error dialogs of the two early returns, and the refresh they may start, do not
  change what is returned.
\<close>

definition initialPlan :: "Plan option \<Rightarrow> Plan" where
  "initialPlan default_plan =
     (case default_plan of
        Some p \<Rightarrow> p
      | None \<Rightarrow> \<lparr>id_P = NaN, os_P = NaN, time = NaN, sshKey = NaN, bootScript = []\<rparr>)"

definition createInstanceMultiStep :: "CONFIG \<Rightarrow> Plan option \<Rightarrow> CreateInstanceResult + wizard" where
  "createInstanceMultiStep cfg default_plan =
     (if \<not> hasEvoPermission cfg then Inl (ErrorResult NoEvoPermission)
      else if planList cfg = [] then Inl (ErrorResult NoPlanAvailable)
      else Inr (updateView cfg
                 \<lparr>plan = initialPlan default_plan, currentStep = SelectPlan,
                  errorMessage = None, isCompleted = False, resolveCalls = [],
                  qp_step = 0, qp_items = [], qp_value = NoText, visible = False,
                  expectingHide = False, disposed = False, showCount = 0\<rparr>))"

text \<open>
  The events the quick pick can raise: an accept carrying the selected item (if any) and
  the text of the input box, or the hide event, which follows a dismissal by the user as
  well as a call of \<open>hide()\<close>. A disposed quick pick raises nothing. The hide event
  reaches the handler only while a show is waiting for it, and it arrives some time after
  the \<open>hide()\<close> that causes it: accepts raised in between are still delivered.
\<close>

datatype event = Accept "item option" string | Hide

fun fire :: "CONFIG \<Rightarrow> wizard \<Rightarrow> event \<Rightarrow> wizard" where
  "fire cfg w (Accept selection v) = (if disposed w then w else onDidAccept cfg selection v w)"
| "fire cfg w Hide =
     (if disposed w \<or> \<not> expectingHide w then w
      else onDidHide (w\<lparr>expectingHide := visible w\<rparr>))"

definition run :: "CONFIG \<Rightarrow> wizard \<Rightarrow> event list \<Rightarrow> wizard" where
  "run cfg w es = foldl (fire cfg) w es"

subsection \<open>A sample store\<close>

text \<open>One plan (identifier 3) offering one system (identifier 7), one SSH key, a
  maximum of 24 hours.\<close>

definition sampleConfig :: CONFIG where
  "sampleConfig =
     \<lparr>hasEvoPermission = True,
      evoPermissions = \<lparr>max_time = Fin 24, allow_packages = None\<rparr>,
      instanceList = [],
      planList = [\<lparr>id_C = 3, name_C = ''small'', os_C = OsArray [\<lparr>id_O = 7, name_O = ''debian''\<rparr>]\<rparr>],
      sshKeyList = [\<lparr>id_K = 5, name_K = ''laptop'', created_at_K = ''2025-01-01 00:00:00''\<rparr>],
      instanceState = None,
      doNotRemindExpiration = False,
      updateStatusBarInterval = None,
      defaultPlan = None,
      bootScriptItems = [Item ''setup.sh'' None]\<rparr>"

subsection \<open>When a render succeeds\<close>

text \<open>
  \<open>updateView\<close> resolves the run with an error only on the OS step, when the chosen plan
  is not in the catalog or has no system to offer; \<open>viewOK\<close> says that this is not the case.
\<close>

definition viewOK :: "CONFIG \<Rightarrow> wizard \<Rightarrow> bool" where
  "viewOK cfg w =
     (if currentStep w = SelectOS
      then (case find (samePlanId (plan w)) (planList cfg) of
              None \<Rightarrow> False
            | Some p \<Rightarrow> osArrayOrEmpty (os_C p) \<noteq> [])
      else True)"

text \<open>
  A run is \<open>waiting\<close> while nothing has been passed to \<open>resolve\<close>, the quick pick is shown
  and not disposed, and the completion flag is unset; it is \<open>closed\<close> once the quick pick
  is disposed. A run that is no longer waiting has resolved (lemma \<open>run_waiting_or_resolved\<close>).
\<close>

definition waiting :: "wizard \<Rightarrow> bool" where
  "waiting w = (\<not> disposed w \<and> resolveCalls w = [] \<and> expectingHide w \<and> \<not> isCompleted w)"

definition closed :: "wizard \<Rightarrow> bool" where
  "closed w = disposed w"

text \<open>The sample run as \<open>createInstanceMultiStep\<close> leaves it after the first render.\<close>

definition sampleStart :: wizard where
  "sampleStart =
     \<lparr>plan = \<lparr>id_P = NaN, os_P = NaN, time = NaN, sshKey = NaN, bootScript = []\<rparr>,
      currentStep = SelectPlan, errorMessage = None, isCompleted = False, resolveCalls = [],
      qp_step = 1, qp_items = [Item ''small'' (Some ''3'')], qp_value = NoText,
      visible = True, expectingHide = True, disposed = False, showCount = 1\<rparr>"



section \<open>Remote calls and what the menus do with them\<close>

text \<open>
  The outcome of one call of \<open>aliceApi\<close>: a response with its HTTP status and its
  payload \<open>response.data?.data\<close> (\<open>None\<close> when absent), or a thrown error with
  \<open>error.response?.status\<close>, \<open>error.response?.data?.message\<close> and \<open>error.message\<close>.
\<close>

datatype 'a reply =
    Resolved nat "'a option"
  | Rejected "nat option" "string option" string

text \<open>
  The texts shown or logged by menu/index.ts and aliceService.ts, one constructor for each
  string template of the source, with the values the template interpolates.
\<close>

datatype log_text =
    Output string
  | FetchFailed string
  | FetchTimedOut

datatype menu_message =
    InstanceCreated
  | ExecutingBootScript string
  | ScriptSucceeded string
  | ScriptFailed string log_text
  | ScriptResultTimedOut string
  | PowerSucceeded string
  | StateFetchFailed string
  | AuthenticationFailed
  | InstanceListFailed
  | NoEvoPermissionNotice
  | InstanceExpired nat
  | InstanceExpiresSoon nat int

text \<open>
  What the code does to the outside, in order: waiting, the two polled requests, progress
  reports, writes to the boot-script log, notifications, and the few calls the modelled
  functions make without waiting for them.
\<close>

datatype effect =
    Delay nat
  | GetInstanceState
  | GetCommandResult
  | Report menu_message
  | UpdateLogEntry string string log_text
  | ShowInformationMessage menu_message
  | ShowWarningMessage menu_message
  | ShowErrorMessage menu_message
  | ShowScriptResult string
  | StartUpdateConfigInstance
  | ClearInterval "nat option"
  | UpdateStatusBar
  | ShowRenewalInstanceMenu nat

subsection \<open>\<open>AliceService.getInstanceState\<close>\<close>

text \<open>\<open>x / c\<close> for a positive constant \<open>c\<close>.\<close>

fun divideBy :: "rat \<Rightarrow> jsnum \<Rightarrow> jsnum" where
  "divideBy c (Fin x) = Fin (x / c)"
| "divideBy c n = n"

text \<open>The two digits of a number below 100.\<close>

definition twoDigits :: "nat \<Rightarrow> string" where
  "twoDigits n = [digitChar (n div 10), digitChar (n mod 10)]"

text \<open>
  \<open>x.toFixed(2)\<close>: the integer \<open>n\<close> nearest to \<open>100 * |x|\<close>, the larger one on a
  tie, printed with two decimals after the sign. (Beyond \<open>10^21\<close> JavaScript prints in
  another format; such values are outside the range the model is exact for.)
\<close>

definition fixed2 :: "rat \<Rightarrow> string" where
  "fixed2 x =
     (let n = nat (floor (x * 100 + 1 / 2))
      in natToString (n div 100) @ ''.'' @ twoDigits (n mod 100))"

fun toFixed2 :: "jsnum \<Rightarrow> string" where
  "toFixed2 NaN = ''NaN''"
| "toFixed2 PosInf = ''Infinity''"
| "toFixed2 NegInf = ''-Infinity''"
| "toFixed2 (Fin x) = (if x < 0 then ''-'' @ fixed2 (- x) else fixed2 x)"

text \<open>The two local functions of \<open>getInstanceState\<close>.\<close>

definition formatMemory :: "string \<Rightarrow> string" where
  "formatMemory mem = toFixed2 (divideBy (1024 * 1024) (parseInt10 mem))"

definition bytesToGB :: "jsnum \<Rightarrow> jsnum" where
  "bytesToGB bytes = Number (Some (toFixed2 (divideBy (1024 * 1024 * 1024) bytes)))"

text \<open>The message of the \<open>TypeError\<close> raised by reading the given field of
  \<open>undefined\<close>.\<close>

definition typeErrorMessage :: "string \<Rightarrow> string" where
  "typeErrorMessage field =
     ''Cannot read properties of undefined (reading '' @ [CHR 0x27] @ field @ [CHR 0x27] @ '')''"

text \<open>
  \<open>getInstanceState\<close> (lines 368 to 408), given the outcome of the request: the state it
  returns (\<open>None\<close> for \<open>undefined\<close>) and the error it shows.
\<close>

definition getInstanceState :: "InstanceState reply \<Rightarrow> InstanceState option \<times> effect list" where
  "getInstanceState r =
     (case r of
        Rejected st rm em \<Rightarrow> (None, [ShowErrorMessage (StateFetchFailed em)])
      | Resolved st d \<Rightarrow>
          (case d of
             None \<Rightarrow> (None, [])
           | Some instanceInfo \<Rightarrow>
               if st \<noteq> 200 then (None, [])
               else if status instanceInfo = ''complete'' then
                 (case state_S instanceInfo of
                    None \<Rightarrow> (None, [ShowErrorMessage (StateFetchFailed (typeErrorMessage ''memory''))])
                  | Some s \<Rightarrow>
                      (let m = \<lparr>memtotal = formatMemory (memtotal (memory s)),
                                memfree = formatMemory (memfree (memory s)),
                                memavailable = formatMemory (memavailable (memory s))\<rparr>;
                           t = \<lparr>traffic_in = bytesToGB (traffic_in (traffic s)),
                                traffic_out = bytesToGB (traffic_out (traffic s)),
                                traffic_total = bytesToGB (traffic_total (traffic s))\<rparr>;
                           s1 = s\<lparr>memory := m, traffic := t\<rparr>;
                           s2 = (if memavailable m = ''0.00'' then s1\<lparr>state := ''stopped''\<rparr> else s1)
                       in (Some (instanceInfo\<lparr>state_S := Some s2\<rparr>), [])))
               else (Some instanceInfo, [])))"

text \<open>\<open>instanceState?.state?.state\<close>\<close>

definition powerStateOf :: "InstanceState option \<Rightarrow> string option" where
  "powerStateOf i =
     (case i of
        None \<Rightarrow> None
      | Some info \<Rightarrow> (case state_S info of None \<Rightarrow> None | Some s \<Rightarrow> Some (state s)))"

subsection \<open>The polling loops of menu/index.ts\<close>

text \<open>
  The \<open>while\<close> loop shared by \<open>createInstance\<close>, \<open>rebulidInstanceItems\<close> and
  \<open>powerInstanceItems\<close>. \<open>api k\<close> is the outcome of the request number \<open>k\<close>; the
  request before the loop is number 0, so the loop's iteration \<open>attempts\<close> makes
  request \<open>attempts + 1\<close>; \<open>fetched\<close> is the variable \<open>instanceState\<close> of the source.
\<close>

function instanceStateLoop ::
  "(nat \<Rightarrow> InstanceState reply) \<Rightarrow> string \<Rightarrow> nat \<Rightarrow> InstanceState option \<Rightarrow> nat \<Rightarrow> effect list"
where
  "instanceStateLoop api target maxAttempts fetched attempts =
     (if powerStateOf fetched \<noteq> Some target \<and> attempts < maxAttempts
      then Delay 2000 # GetInstanceState # snd (getInstanceState (api (attempts + 1)))
           @ instanceStateLoop api target maxAttempts
               (fst (getInstanceState (api (attempts + 1)))) (attempts + 1)
      else [])"
  by pat_completeness auto
termination
  by (relation "measure (\<lambda>(api, target, maxAttempts, fetched, attempts). maxAttempts - attempts)")
     auto

declare instanceStateLoop.simps [simp del]

text \<open>
  \<open>pollBootScriptResult\<close> (lines 648 to 694): the loop from a given value of
  \<open>attempts\<close>, each iteration making the request number \<open>attempts\<close>, and the timeout
  branch behind it. \<open>view\<close> says whether the user presses "view the result" in the success
  dialog.
\<close>

function pollBootScriptLoop ::
  "(nat \<Rightarrow> string reply) \<Rightarrow> bool \<Rightarrow> string \<Rightarrow> string \<Rightarrow> nat \<Rightarrow> nat \<Rightarrow> effect list"
where
  "pollBootScriptLoop api view commandUid scriptName maxAttempts attempts =
     (if attempts < maxAttempts then
        GetCommandResult #
        (case api attempts of
           Resolved st output \<Rightarrow>
             if st = 200 \<and> truthyStr output then
               [UpdateLogEntry commandUid ''completed'' (Output (case output of Some s \<Rightarrow> s | None \<Rightarrow> [])),
                ShowInformationMessage (ScriptSucceeded scriptName)]
               @ (if view then [ShowScriptResult commandUid] else [])
             else Delay 5000 #
                  pollBootScriptLoop api view commandUid scriptName maxAttempts (attempts + 1)
         | Rejected st rm em \<Rightarrow>
             if st \<noteq> Some 202 then
               [UpdateLogEntry commandUid ''failed''
                  (FetchFailed (if truthyStr rm then (case rm of Some s \<Rightarrow> s | None \<Rightarrow> []) else em)),
                ShowErrorMessage
                  (ScriptFailed scriptName
                     (FetchFailed (if truthyStr rm then (case rm of Some s \<Rightarrow> s | None \<Rightarrow> []) else em)))]
             else Delay 5000 #
                  pollBootScriptLoop api view commandUid scriptName maxAttempts (attempts + 1))
      else [UpdateLogEntry commandUid ''failed'' FetchTimedOut,
            ShowWarningMessage (ScriptResultTimedOut scriptName)])"
  by pat_completeness auto
termination
  by (relation "measure (\<lambda>(api, view, commandUid, scriptName, maxAttempts, attempts).
                            maxAttempts - attempts)")
     auto

declare pollBootScriptLoop.simps [simp del]

definition pollBootScriptResult ::
  "(nat \<Rightarrow> string reply) \<Rightarrow> bool \<Rightarrow> string \<Rightarrow> string \<Rightarrow> effect list" where
  "pollBootScriptResult api view commandUid scriptName =
     pollBootScriptLoop api view commandUid scriptName 180 0"

text \<open>
  The progress task of \<open>createInstance\<close> (lines 233 to 267), for an instance whose
  creation returned the boot-script identifier \<open>bootScriptUid\<close>, \<open>pl\<close> being the
  request (\<open>plan\<close> in the source).
\<close>

definition createInstanceProgress ::
  "(nat \<Rightarrow> InstanceState reply) \<Rightarrow> (nat \<Rightarrow> string reply) \<Rightarrow> bool \<Rightarrow> string option \<Rightarrow> Plan
     \<Rightarrow> effect list" where
  "createInstanceProgress api cmdApi view bootScriptUid pl =
     Delay 2000 # GetInstanceState # snd (getInstanceState (api 0))
     @ instanceStateLoop api ''running'' 60 (fst (getInstanceState (api 0))) 0
     @ [Report InstanceCreated, Delay 1000]
     @ (if truthyStr bootScriptUid \<and> bootScript pl \<noteq> []
        then Report (ExecutingBootScript (bootScript pl))
             # pollBootScriptResult cmdApi view
                 (case bootScriptUid of Some u \<Rightarrow> u | None \<Rightarrow> []) (bootScript pl)
        else [])"

text \<open>
  \<open>powerInstanceItems\<close> after a response with code 200 (lines 601 to 632): the progress
  task and the notification that follows it.
\<close>

datatype power_action = Boot | Shutdown | Restart | Poweroff

definition powerTarget :: "power_action \<Rightarrow> string" where
  "powerTarget action = (if action = Boot \<or> action = Restart then ''running'' else ''stopped'')"

definition powerInstanceProgress ::
  "(nat \<Rightarrow> InstanceState reply) \<Rightarrow> power_action \<Rightarrow> string \<Rightarrow> effect list" where
  "powerInstanceProgress api action label =
     GetInstanceState # snd (getInstanceState (api 0))
     @ instanceStateLoop api (powerTarget action) 60 (fst (getInstanceState (api 0))) 0
     @ [ShowInformationMessage (PowerSucceeded label), UpdateStatusBar]"

subsection \<open>Sample remotes\<close>

definition samplePlan :: Plan where
  "samplePlan = \<lparr>id_P = Fin 3, os_P = Fin 7, time = Fin 12, sshKey = NaN, bootScript = ''setup.sh''\<rparr>"

text \<open>An instance that reports itself stopped at every request, one that reports itself
  running with no available memory, and a command whose result is pending at every request.\<close>

definition sampleState :: "string \<Rightarrow> string \<Rightarrow> InstanceState" where
  "sampleState st avail =
     \<lparr>status = ''complete'',
      state_S = Some \<lparr>state = st, cpu = Fin 1,
                      memory = \<lparr>memtotal = ''1048576'', memfree = ''524288'', memavailable = avail\<rparr>,
                      traffic = \<lparr>traffic_in = Fin 0, traffic_out = Fin 0, traffic_total = Fin 0\<rparr>\<rparr>\<rparr>"

definition alwaysStopped :: "nat \<Rightarrow> InstanceState reply" where
  "alwaysStopped k = Resolved 200 (Some (sampleState ''stopped'' ''524288''))"

definition runningWithoutMemory :: "nat \<Rightarrow> InstanceState reply" where
  "runningWithoutMemory k = Resolved 200 (Some (sampleState ''running'' ''0''))"

definition alwaysPending :: "nat \<Rightarrow> string reply" where
  "alwaysPending k = Rejected (Some 202) None ''Request failed with status code 202''"

definition failsAtThird :: "nat \<Rightarrow> string reply" where
  "failsAtThird k =
     (if k = 2 then Rejected (Some 500) (Some ''boom'') ''Request failed with status code 500''
      else Rejected (Some 202) None ''Request failed with status code 202'')"

text \<open>
  A reply that leaves the boot-script poll waiting: a response without output, or an error
  whose status is 202.
\<close>

definition pendingReply :: "string reply \<Rightarrow> bool" where
  "pendingReply r =
     (case r of
        Resolved st output \<Rightarrow> \<not> (st = 200 \<and> truthyStr output)
      | Rejected st rm em \<Rightarrow> st = Some 202)"

text \<open>The detail of a failed request: \<open>error.response?.data?.message || error.message\<close>.\<close>

definition errorDetail :: "string option \<Rightarrow> string \<Rightarrow> string" where
  "errorDetail rm em = (if truthyStr rm then (case rm of Some s \<Rightarrow> s | None \<Rightarrow> []) else em)"

text \<open>\<open>n\<close> rounds of "ask, then wait five seconds".\<close>

definition emptyPolls :: "nat \<Rightarrow> effect list" where
  "emptyPolls n = concat (replicate n [GetCommandResult, Delay 5000])"

text \<open>
  A reply of the remote that describes a completed instance whose available memory,
  converted and rounded, prints as "0.00".
\<close>

definition reportsNoMemory :: "InstanceState reply \<Rightarrow> bool" where
  "reportsNoMemory r =
     (case r of
        Rejected st rm em \<Rightarrow> False
      | Resolved st d \<Rightarrow>
          (case d of
             None \<Rightarrow> False
           | Some info \<Rightarrow>
               (case state_S info of
                  None \<Rightarrow> False
                | Some s \<Rightarrow>
                    st = 200 \<and> status info = ''complete''
                    \<and> formatMemory (memavailable (memory s)) = ''0.00'')))"

text \<open>\<open>n\<close> rounds of "wait two seconds, then ask for the state".\<close>

definition statePolls :: "nat \<Rightarrow> effect list" where
  "statePolls n = concat (replicate n [Delay 2000, GetInstanceState])"

section \<open>The store: \<open>updateConfig\<close> and \<open>checkInstanceExpiration\<close>\<close>

subsection \<open>What the remote answers\<close>

text \<open>
  The permissions as the remote sends them (\<open>allow_packages\<close> still a "|"-separated
  string), a group of the plan-to-OS answer (\<open>group.os_list\<close>, possibly absent), and the
  outcome of each request of a refresh. \<open>planToOSReply\<close> is indexed by the plan identifier
  the request is made for.
\<close>

record RawPermissions =
  max_time_R :: jsnum
  allow_packages_R :: "string option"

type_synonym OsGroup = "OsEntry list option"

record Remote =
  instanceListReply :: "Instance list reply"
  evoPermissionsReply :: "RawPermissions reply"
  planListReply :: "PlanEntry list reply"
  planToOSReply :: "nat \<Rightarrow> OsGroup list reply"
  sshKeyListReply :: "SSHKeyEntry list reply"

datatype update_flag = FlagAll | FlagInstance | FlagDefaultPlan

subsection \<open>The steps of a refresh\<close>

text \<open>
  The instance list (lines 109 to 148). The third component says that the progress task
  returned early, which it does on a 401. \<open>toLocal\<close> is \<open>convertTimezoneToLocal\<close>.
\<close>

definition fetchInstanceList ::
  "(string \<Rightarrow> string) \<Rightarrow> Instance list reply \<Rightarrow> CONFIG \<Rightarrow> CONFIG \<times> effect list \<times> bool" where
  "fetchInstanceList toLocal r cfg =
     (case r of
        Resolved st d \<Rightarrow>
          (cfg\<lparr>instanceList :=
                 (case d of
                    None \<Rightarrow> []
                  | Some l \<Rightarrow>
                      map (\<lambda>i. i\<lparr>creation_at := toLocal (creation_at i),
                                  expiration_at := toLocal (expiration_at i)\<rparr>) l)\<rparr>,
           [], False)
      | Rejected st rm em \<Rightarrow>
          if st = Some 401 then (cfg, [ShowErrorMessage AuthenticationFailed], True)
          else (cfg, [ShowErrorMessage InstanceListFailed], False))"

text \<open>The permissions (lines 152 to 194).\<close>

definition fetchEvoPermissions :: "RawPermissions reply \<Rightarrow> CONFIG \<Rightarrow> CONFIG \<times> effect list" where
  "fetchEvoPermissions r cfg =
     (case r of
        Resolved st d \<Rightarrow>
          if st = 200 then
            (cfg\<lparr>evoPermissions :=
                   (case d of
                      None \<Rightarrow> \<lparr>max_time = NaN, allow_packages = None\<rparr>
                    | Some raw \<Rightarrow>
                        \<lparr>max_time = max_time_R raw,
                         allow_packages =
                           (case allow_packages_R raw of
                              None \<Rightarrow> None
                            | Some a \<Rightarrow> if a = [] then None else Some (split CHR ''|'' a))\<rparr>),
                 hasEvoPermission := True\<rparr>, [])
          else (cfg, [])
      | Rejected st rm em \<Rightarrow>
          if st = Some 400
          then (cfg\<lparr>hasEvoPermission := False\<rparr>, [ShowErrorMessage NoEvoPermissionNotice])
          else (cfg, []))"

text \<open>
  The body of the \<open>planList.map\<close> callback (lines 216 to 254): the request of one
  plan's systems inside its own \<open>try\<close>/\<open>catch\<close>, and the plan with its \<open>os\<close> field
  replaced.
\<close>

definition fetchPlanOS :: "(nat \<Rightarrow> OsGroup list reply) \<Rightarrow> PlanEntry \<Rightarrow> PlanEntry" where
  "fetchPlanOS osReply p =
     (let originalOsIds = (case os_C p of OsString s \<Rightarrow> split CHR ''|'' s | _ \<Rightarrow> [])
      in case osReply (id_C p) of
           Rejected st rm em \<Rightarrow> p\<lparr>os_C := OsArray []\<rparr>
         | Resolved st d \<Rightarrow>
             (case d of
                None \<Rightarrow> p\<lparr>os_C := OsArray []\<rparr>
              | Some groups \<Rightarrow>
                  if st = 200 then
                    (let allOsObjects =
                           concat (map (\<lambda>g. case g of None \<Rightarrow> [] | Some l \<Rightarrow> l) groups)
                     in if originalOsIds = [] then p\<lparr>os_C := OsArray allOsObjects\<rparr>
                        else p\<lparr>os_C := OsArray
                                 (filter (\<lambda>os. natToString (id_O os) \<in> set originalOsIds)
                                    allOsObjects)\<rparr>)
                  else p\<lparr>os_C := OsArray []\<rparr>))"

text \<open>The plans the allow-list admits (lines 206 to 212).\<close>

definition allowedPlans :: "string list option \<Rightarrow> PlanEntry list \<Rightarrow> PlanEntry list" where
  "allowedPlans allow l =
     (case allow of
        None \<Rightarrow> l
      | Some ids \<Rightarrow> filter (\<lambda>p. natToString (id_C p) \<in> set ids) l)"

text \<open>The plan list (lines 201 to 262); the requests of \<open>Promise.all\<close> touch one plan each.\<close>

definition fetchPlanList ::
  "PlanEntry list reply \<Rightarrow> (nat \<Rightarrow> OsGroup list reply) \<Rightarrow> CONFIG \<Rightarrow> CONFIG" where
  "fetchPlanList r osReply cfg =
     (case r of
        Resolved st d \<Rightarrow>
          if st = 200 then
            cfg\<lparr>planList :=
                  (case d of
                     None \<Rightarrow> []
                   | Some l \<Rightarrow>
                       map (fetchPlanOS osReply)
                         (allowedPlans (allow_packages (evoPermissions cfg)) l))\<rparr>
          else cfg
      | Rejected st rm em \<Rightarrow> cfg)"

text \<open>The SSH keys (lines 265 to 282).\<close>

definition fetchSSHKeyList ::
  "(string \<Rightarrow> string) \<Rightarrow> SSHKeyEntry list reply \<Rightarrow> CONFIG \<Rightarrow> CONFIG" where
  "fetchSSHKeyList toLocal r cfg =
     (case r of
        Resolved st d \<Rightarrow>
          if st = 200 then
            cfg\<lparr>sshKeyList :=
                  (case d of
                     None \<Rightarrow> []
                   | Some l \<Rightarrow> map (\<lambda>k. k\<lparr>created_at_K := toLocal (created_at_K k)\<rparr>) l)\<rparr>
          else cfg
      | Rejected st rm em \<Rightarrow> cfg)"

text \<open>
  \<open>updateConfig(flag)\<close> (lines 94 to 308): the store and the notifications after one
  refresh. \<open>credentials\<close> says that both the client id and the secret are set;
  \<open>storedDefaultPlan\<close> is what \<open>getDefaultPlan()\<close> returns, already numeric. The retries a
  user may start from a notification are refreshes of their own.
\<close>

definition updateConfig ::
  "(string \<Rightarrow> string) \<Rightarrow> bool \<Rightarrow> Plan option \<Rightarrow> Remote \<Rightarrow> update_flag \<Rightarrow> CONFIG
     \<Rightarrow> CONFIG \<times> effect list" where
  "updateConfig toLocal credentials storedDefaultPlan remote flag cfg =
     (if \<not> credentials then (cfg, [])
      else
        let (c1, fx1, returned) =
              (if flag = FlagInstance \<or> flag = FlagAll
               then fetchInstanceList toLocal (instanceListReply remote) cfg
               else (cfg, [], False));
            (c2, fx2) =
              (if returned \<or> flag \<noteq> FlagAll then (c1, [])
               else
                 let (c, fx) = fetchEvoPermissions (evoPermissionsReply remote) c1
                 in if \<not> hasEvoPermission c then (c, fx)
                    else (fetchSSHKeyList toLocal (sshKeyListReply remote)
                            (fetchPlanList (planListReply remote) (planToOSReply remote) c),
                          fx));
            c3 = (if flag = FlagDefaultPlan then c2\<lparr>defaultPlan := storedDefaultPlan\<rparr> else c2)
        in (c3, fx1 @ fx2))"

subsection \<open>\<open>checkInstanceExpiration\<close>\<close>

text \<open>What a function call ends with: a thrown error (its message) or a normal return.\<close>

datatype 'a outcome = Threw string | Returned 'a

text \<open>The answer to the dialog "extend the time?": yes, do not remind again, or closed.\<close>

datatype reminder_choice = ExtendTime | DoNotRemindAgain | Dismissed

text \<open>
  \<open>checkInstanceExpiration\<close> (lines 313 to 362). \<open>parseDate\<close> is
  \<open>new Date(s).getTime()\<close> in milliseconds (\<open>None\<close> for an invalid date, whose
  \<open>NaN\<close> fails both comparisons), \<open>now\<close> the current time. The call
  \<open>this.updateConfig("instance")\<close> is not awaited: the refresh has only started (effect
  \<open>StartUpdateConfigInstance\<close>) and has written nothing to \<open>CONFIG\<close>, which it does
  after the remote has answered, when the next line reads \<open>CONFIG.instanceList\<close>.
\<close>

definition checkInstanceExpiration ::
  "(string \<Rightarrow> int option) \<Rightarrow> int \<Rightarrow> reminder_choice \<Rightarrow> CONFIG \<Rightarrow> (CONFIG \<times> effect list) outcome"
where
  "checkInstanceExpiration parseDate now choice cfg =
     (case instanceList cfg of
        [] \<Rightarrow> Threw (typeErrorMessage ''expiration_at'')
      | instance # rest \<Rightarrow>
          if doNotRemindExpiration cfg then Returned (cfg, [])
          else
            (case parseDate (expiration_at instance) of
               None \<Rightarrow> Returned (cfg, [])
             | Some expiration \<Rightarrow>
                 (let timeLeft = expiration - now;
                      minutes = (timeLeft div (1000 * 60)) mod 60
                  in if timeLeft < 0 then
                       (if length (instanceList cfg) > 0
                        then Returned (cfg, [StartUpdateConfigInstance])
                        else Returned
                               (cfg\<lparr>instanceList := [], instanceState := None,
                                    doNotRemindExpiration := False,
                                    updateStatusBarInterval := None\<rparr>,
                                [StartUpdateConfigInstance,
                                 ShowErrorMessage (InstanceExpired (id_I instance)),
                                 ClearInterval (updateStatusBarInterval cfg),
                                 UpdateStatusBar]))
                     else if timeLeft < 5 * 60 * 1000 then
                       Returned
                         ((if choice = DoNotRemindAgain
                           then cfg\<lparr>doNotRemindExpiration := True\<rparr> else cfg),
                          ShowWarningMessage (InstanceExpiresSoon (id_I instance) minutes)
                          # (if choice = ExtendTime
                             then [ShowRenewalInstanceMenu (id_I instance)] else []))
                     else Returned (cfg, []))))"

subsection \<open>A sample remote and a sample expired instance\<close>

text \<open>
  Three plans; the request for the systems of plan 2 fails, the other two answer with
  two systems each, of which plan 1 lists only the first.
\<close>

definition sampleOsReply :: "nat \<Rightarrow> OsGroup list reply" where
  "sampleOsReply planId =
     (if planId = 2 then Rejected (Some 500) None ''Request failed with status code 500''
      else Resolved 200
             (Some [Some [\<lparr>id_O = 7, name_O = ''debian''\<rparr>], None,
                    Some [\<lparr>id_O = 8, name_O = ''alpine''\<rparr>]]))"

definition sampleRemote :: Remote where
  "sampleRemote =
     \<lparr>instanceListReply = Resolved 200 (Some []),
      evoPermissionsReply = Resolved 200 (Some \<lparr>max_time_R = Fin 24, allow_packages_R = None\<rparr>),
      planListReply =
        Resolved 200
          (Some [\<lparr>id_C = 1, name_C = ''small'', os_C = OsString ''7''\<rparr>,
                 \<lparr>id_C = 2, name_C = ''medium'', os_C = OsString ''7|8''\<rparr>,
                 \<lparr>id_C = 3, name_C = ''large'', os_C = OsAbsent\<rparr>]),
      planToOSReply = sampleOsReply,
      sshKeyListReply =
        Resolved 200 (Some [\<lparr>id_K = 5, name_K = ''laptop'', created_at_K = ''2025-01-01''\<rparr>])\<rparr>"

definition sampleExpired :: CONFIG where
  "sampleExpired =
     sampleConfig
       \<lparr>instanceList := [\<lparr>id_I = 42, creation_at = ''created'', expiration_at = ''expired''\<rparr>],
        instanceState := Some (sampleState ''running'' ''524288''),
        updateStatusBarInterval := Some 1\<rparr>"

definition sampleDate :: "string \<Rightarrow> int option" where
  "sampleDate s = (if s = ''expired'' then Some 1000 else None)"

subsection \<open>The forward transitions of a run\<close>

text \<open>
  An event moved the run forward when it raised the step index by one or completed the
  run. \<open>lastForward\<close> replays a run and keeps, for each step index, the last event that
  moved the run forward from that step; \<open>forwardOnly\<close> lists these events in the order
  of the steps: the run "by forward transitions only, with the last value entered or
  selected at each step".
\<close>

definition advanced :: "wizard \<Rightarrow> wizard \<Rightarrow> bool" where
  "advanced w w' =
     (stepIndex (currentStep w') = stepIndex (currentStep w) + 1
      \<or> (isCompleted w' \<and> \<not> isCompleted w))"

fun lastForward ::
  "CONFIG \<Rightarrow> wizard \<Rightarrow> event list \<Rightarrow> (nat \<Rightarrow> event option) \<Rightarrow> (nat \<Rightarrow> event option)" where
  "lastForward cfg w [] m = m"
| "lastForward cfg w (e # es) m =
     lastForward cfg (fire cfg w e) es
       (if advanced w (fire cfg w e) then m(stepIndex (currentStep w) \<mapsto> e) else m)"

definition slots :: "(nat \<Rightarrow> event option) \<Rightarrow> nat \<Rightarrow> event list" where
  "slots m j = List.map_filter m [0..<j]"

definition forwardOnly :: "CONFIG \<Rightarrow> wizard \<Rightarrow> event list \<Rightarrow> event list" where
  "forwardOnly cfg w es = slots (lastForward cfg w es Map.empty) 5"

text \<open>Two requests agree on the fields of the first \<open>k\<close> steps.\<close>

definition agree :: "nat \<Rightarrow> Plan \<Rightarrow> Plan \<Rightarrow> bool" where
  "agree k p q =
     ((0 < k \<longrightarrow> id_P p = id_P q) \<and> (1 < k \<longrightarrow> os_P p = os_P q) \<and>
      (2 < k \<longrightarrow> time p = time q) \<and> (3 < k \<longrightarrow> sshKey p = sshKey q) \<and>
      (4 < k \<longrightarrow> bootScript p = bootScript q))"

text \<open>Two requests differ at most in the field that the given step fills.\<close>

fun sameExcept :: "CreateInstanceStep \<Rightarrow> Plan \<Rightarrow> Plan \<Rightarrow> bool" where
  "sameExcept SelectPlan p q = (q = p\<lparr>id_P := id_P q\<rparr>)"
| "sameExcept SelectOS p q = (q = p\<lparr>os_P := os_P q\<rparr>)"
| "sameExcept EnterTime p q = (q = p\<lparr>time := time q\<rparr>)"
| "sameExcept SelectSSHKey p q = (q = p\<lparr>sshKey := sshKey q\<rparr>)"
| "sameExcept SelectBootScript p q = (q = p\<lparr>bootScript := bootScript q\<rparr>)"
| "sameExcept Done p q = (q = p)"
| "sameExcept Cancelled p q = (q = p)"

text \<open>
  The invariant of a run started at \<open>w0\<close>: the run waits at one of the five steps, and
  for every step index \<open>j\<close> up to the current one, the events kept for the steps below
  \<open>j\<close> lead from \<open>w0\<close> to a run waiting at step \<open>j\<close> whose request agrees with the
  current one on the fields filled so far.
\<close>

definition replayed :: "CONFIG \<Rightarrow> wizard \<Rightarrow> wizard \<Rightarrow> (nat \<Rightarrow> event option) \<Rightarrow> bool" where
  "replayed cfg w0 w m =
     (waiting w \<and> stepIndex (currentStep w) \<le> 4 \<and>
      (\<forall>j. j \<le> stepIndex (currentStep w) \<longrightarrow>
         (\<forall>i. i < j \<longrightarrow> m i \<noteq> None) \<and>
         waiting (run cfg w0 (slots m j)) \<and>
         stepIndex (currentStep (run cfg w0 (slots m j))) = j \<and>
         agree j (plan w) (plan (run cfg w0 (slots m j)))))"

section \<open>Properties of the wizard\<close>

text \<open>
  Claim C8. A run started while \<open>hasEvoPermission\<close> is false returns the error result
  whose message names the missing permission, and a run started on an empty plan catalog
  returns an error result as well, naming the missing plans when the permission is held;
  both returns happen before the quick pick is created, so no step is rendered.
\<close>

theorem guards_resolve_error_before_render:
  "(\<not> hasEvoPermission cfg \<longrightarrow>
      createInstanceMultiStep cfg default_plan = Inl (ErrorResult NoEvoPermission)) \<and>
   (planList cfg = [] \<longrightarrow>
      createInstanceMultiStep cfg default_plan =
        Inl (ErrorResult (if hasEvoPermission cfg then NoPlanAvailable else NoEvoPermission)))"
  by (simp add: createInstanceMultiStep_def)

theorem guards_resolve_error_before_render_witness:
  "\<not> hasEvoPermission (sampleConfig\<lparr>hasEvoPermission := False\<rparr>) \<and>
   createInstanceMultiStep (sampleConfig\<lparr>hasEvoPermission := False\<rparr>) None
     = Inl (ErrorResult NoEvoPermission) \<and>
   planList (sampleConfig\<lparr>planList := []\<rparr>) = [] \<and>
   createInstanceMultiStep (sampleConfig\<lparr>planList := []\<rparr>) None
     = Inl (ErrorResult NoPlanAvailable)"
  using guards_resolve_error_before_render [of "sampleConfig\<lparr>hasEvoPermission := False\<rparr>" None]
        guards_resolve_error_before_render [of "sampleConfig\<lparr>planList := []\<rparr>" None]
  by (simp add: sampleConfig_def)

section \<open>Decimal strings parse back to their number\<close>

lemma digitChar_code:
  fixes d :: nat
  assumes "d < 10"
  shows "of_char (digitChar d) = (48 + d :: nat)"
proof -
  from assms have "d \<in> {0, 1, 2, 3, 4, 5, 6, 7, 8, 9}" by auto
  then show ?thesis by (auto simp: digitChar_def)
qed

lemma isDigit_iff: "isDigit c = (48 \<le> (of_char c :: nat) \<and> (of_char c :: nat) \<le> 57)"
  by (simp add: isDigit_def digitVal_def Let_def)

lemma isDigit_digitChar: "d < 10 \<Longrightarrow> isDigit (digitChar d)"
  by (simp add: isDigit_iff digitChar_code)

lemma natToString_digits: "list_all isDigit (natToString n)"
proof (induction n rule: natToString.induct)
  case (1 n)
  show ?case
  proof (cases "n < 10")
    case True
    then show ?thesis by (subst natToString.simps) (simp add: isDigit_digitChar)
  next
    case False
    with 1 show ?thesis by (subst natToString.simps) (simp add: isDigit_digitChar)
  qed
qed

lemma natToString_nonempty: "natToString n \<noteq> []"
  by (subst natToString.simps) simp

lemma digitsVal_snoc: "digitsVal (ds @ [c]) = 10 * digitsVal ds + (of_char c - 48)"
  by (simp add: digitsVal_def)

lemma digitsVal_natToString: "digitsVal (natToString n) = n"
proof (induction n rule: natToString.induct)
  case (1 n)
  show ?case
  proof (cases "n < 10")
    case True
    then show ?thesis
      by (subst natToString.simps) (simp add: digitsVal_def digitChar_code)
  next
    case False
    with 1 show ?thesis
      by (subst natToString.simps) (simp add: digitsVal_snoc digitChar_code)
  qed
qed

lemma digit_not_white: "isDigit c \<Longrightarrow> \<not> isWhite c"
  by (auto simp: isDigit_iff isWhite_def)

lemma digit_not_sign: "isDigit c \<Longrightarrow> c \<noteq> CHR ''-'' \<and> c \<noteq> CHR ''+''"
  by (auto simp: isDigit_iff)

lemma digits_dropWhite: "list_all isDigit ds \<Longrightarrow> dropWhile isWhite ds = ds"
  by (cases ds) (simp_all add: digit_not_white)

lemma digits_trim: "list_all isDigit ds \<Longrightarrow> trim ds = ds"
proof -
  assume a: "list_all isDigit ds"
  then have "list_all isDigit (rev ds)" by (simp add: list_all_iff)
  then have "dropWhile isWhite (rev ds) = rev ds" by (rule digits_dropWhite)
  with a show ?thesis by (simp add: trim_def digits_dropWhite)
qed

lemma digits_signOf: "list_all isDigit ds \<Longrightarrow> signOf ds = (False, ds)"
  by (cases ds) (simp_all add: digit_not_sign)

lemma digits_takeWhile: "list_all isDigit ds \<Longrightarrow> takeWhile isDigit ds = ds"
  by (simp add: list_all_iff)

lemma digits_dropWhile: "list_all isDigit ds \<Longrightarrow> dropWhile isDigit ds = []"
  by (simp add: list_all_iff)

lemma parseInt10_digits:
  "list_all isDigit ds \<Longrightarrow> ds \<noteq> [] \<Longrightarrow> parseInt10 ds = Fin (of_nat (digitsVal ds))"
  by (simp add: parseInt10_def digits_dropWhite digits_signOf digits_takeWhile signed_def)

lemma digits_not_Infinity: "list_all isDigit ds \<Longrightarrow> take 8 ds \<noteq> ''Infinity''"
  by (cases ds) (auto simp: isDigit_iff)

lemma decimalLiteral_digits:
  "list_all isDigit ds \<Longrightarrow> ds \<noteq> [] \<Longrightarrow> decimalLiteral ds = Some (Fin (of_nat (digitsVal ds)), [])"
  by (simp add: decimalLiteral_def digits_signOf digits_takeWhile digits_dropWhile
      digits_not_Infinity exponentPart_def signed_def pow10_def)

lemma parseFloat_digits:
  "list_all isDigit ds \<Longrightarrow> ds \<noteq> [] \<Longrightarrow> parseFloat ds = Fin (of_nat (digitsVal ds))"
  by (simp add: parseFloat_def digits_dropWhite decimalLiteral_digits)

lemma radixOf_digit: "isDigit c \<Longrightarrow> radixOf c = None"
  by (auto simp: radixOf_def isDigit_iff)

lemma nonDecimalLiteral_digits: "list_all isDigit ds \<Longrightarrow> nonDecimalLiteral ds = None"
  by (cases ds rule: nonDecimalLiteral.cases) (simp_all add: radixOf_digit)

lemma Number_digits:
  "list_all isDigit ds \<Longrightarrow> ds \<noteq> [] \<Longrightarrow> Number (Some ds) = Fin (of_nat (digitsVal ds))"
  by (simp add: Number_def digits_trim nonDecimalLiteral_digits decimalLiteral_digits)

lemma Number_natToString: "Number (Some (natToString n)) = Fin (of_nat n)"
  by (simp add: Number_digits natToString_digits natToString_nonempty digitsVal_natToString)

lemma parseInt10_natToString: "parseInt10 (natToString n) = Fin (of_nat n)"
  by (simp add: parseInt10_digits natToString_digits natToString_nonempty digitsVal_natToString)

lemma parseFloat_natToString: "parseFloat (natToString n) = Fin (of_nat n)"
  by (simp add: parseFloat_digits natToString_digits natToString_nonempty digitsVal_natToString)

lemma trim_natToString: "trim (natToString n) = natToString n"
  by (simp add: digits_trim natToString_digits)

section \<open>The wizard: what a render and a handler leave unchanged\<close>

lemma osFalsy_empty: "osFalsy f \<Longrightarrow> osArrayOrEmpty f = []"
  by (cases f) simp_all

lemma plan_onDidHide [simp]: "plan (onDidHide w) = plan w"
  by (simp add: onDidHide_def resolve_def)

lemma currentStep_onDidHide [simp]: "currentStep (onDidHide w) = currentStep w"
  by (simp add: onDidHide_def resolve_def)

lemma isCompleted_onDidHide [simp]: "isCompleted (onDidHide w) = isCompleted w"
  by (simp add: onDidHide_def resolve_def)

lemma disposed_onDidHide [simp]: "disposed (onDidHide w)"
  by (simp add: onDidHide_def)

lemma plan_qp_hide [simp]: "plan (qp_hide w) = plan w"
  by (simp add: qp_hide_def)

lemma currentStep_qp_hide [simp]: "currentStep (qp_hide w) = currentStep w"
  by (simp add: qp_hide_def)

lemma isCompleted_qp_hide [simp]: "isCompleted (qp_hide w) = isCompleted w"
  by (simp add: qp_hide_def)

lemma resolveCalls_qp_hide [simp]: "resolveCalls (qp_hide w) = resolveCalls w"
  by (simp add: qp_hide_def)

lemma disposed_qp_hide [simp]: "disposed (qp_hide w) = disposed w"
  by (simp add: qp_hide_def)

lemma expectingHide_qp_hide [simp]: "expectingHide (qp_hide w) = expectingHide w"
  by (simp add: qp_hide_def)

lemma plan_updateView [simp]: "plan (updateView cfg w) = plan w"
  by (simp add: updateView_def Let_def qp_show_def resolve_def
      split: CreateInstanceStep.splits option.splits)

lemma currentStep_updateView [simp]: "currentStep (updateView cfg w) = currentStep w"
  by (simp add: updateView_def Let_def qp_show_def resolve_def
      split: CreateInstanceStep.splits option.splits)

lemma isCompleted_updateView [simp]: "isCompleted (updateView cfg w) = isCompleted w"
  by (simp add: updateView_def Let_def qp_show_def resolve_def
      split: CreateInstanceStep.splits option.splits)

lemma disposed_updateView [simp]: "disposed (updateView cfg w) = disposed w"
  by (simp add: updateView_def Let_def qp_show_def resolve_def
      split: CreateInstanceStep.splits option.splits)

lemma updateView_ok:
  assumes "viewOK cfg w"
  shows "resolveCalls (updateView cfg w) = resolveCalls w"
    and "expectingHide (updateView cfg w)"
    and "visible (updateView cfg w)"
    and "showCount (updateView cfg w) = showCount w + 1"
  using assms
  by (auto simp: viewOK_def updateView_def Let_def qp_show_def osFalsy_empty
      split: CreateInstanceStep.splits option.splits if_splits)

lemma updateView_failed:
  assumes "\<not> viewOK cfg w"
  shows "\<exists>m. resolveCalls (updateView cfg w) = resolveCalls w @ [ErrorResult m]"
    and "expectingHide (updateView cfg w) = expectingHide w"
    and "\<not> visible (updateView cfg w)"
    and "showCount (updateView cfg w) = showCount w"
  using assms
  by (auto simp: viewOK_def updateView_def Let_def qp_hide_def resolve_def
      split: CreateInstanceStep.splits option.splits if_splits)

lemma updateView_waiting_or_resolved:
  assumes "waiting w"
  shows "waiting (updateView cfg w) \<or> resolveCalls (updateView cfg w) \<noteq> []"
proof (cases "viewOK cfg w")
  case True
  with assms show ?thesis by (simp add: waiting_def updateView_ok)
next
  case False
  from updateView_failed(1) [OF False] show ?thesis by auto
qed

lemma waiting_update_plan [simp]: "waiting (w\<lparr>plan := p\<rparr>) = waiting w"
  by (simp add: waiting_def)

lemma waiting_update_step [simp]: "waiting (w\<lparr>currentStep := s\<rparr>) = waiting w"
  by (simp add: waiting_def)

lemma waiting_update_error [simp]: "waiting (w\<lparr>errorMessage := m\<rparr>) = waiting w"
  by (simp add: waiting_def)

lemma complete_resolved:
  "waiting w \<Longrightarrow>
   resolveCalls (qp_hide (resolve Completed (w\<lparr>plan := p, isCompleted := True\<rparr>))) = [Completed]"
  by (simp add: waiting_def resolve_def)

lemma onDidAccept_waiting_or_resolved:
  assumes w: "waiting w"
  shows "waiting (onDidAccept cfg sel v w) \<or> resolveCalls (onDidAccept cfg sel v w) \<noteq> []"
    (is "?P (onDidAccept cfg sel v w)")
proof -
  have U: "?P (updateView cfg w')" if "waiting w'" for w'
    using that by (rule updateView_waiting_or_resolved)
  have C: "?P (qp_hide (resolve Completed (w\<lparr>plan := p, isCompleted := True\<rparr>)))" for p
    using complete_resolved [OF w, of p] by simp
  have W: "?P w" using w by simp
  show ?thesis
  proof (cases "sel = Some BackItem")
    case True
    then show ?thesis using U W w by (simp add: onDidAccept_def)
  next
    case False
    show ?thesis
    proof (cases "currentStep w")
      case SelectPlan
      then show ?thesis using False U W w
        by (simp add: onDidAccept_def split: option.splits)
    next
      case SelectOS
      then show ?thesis using False U W w
        by (simp add: onDidAccept_def split: option.splits)
    next
      case EnterTime
      then show ?thesis using False U W w
        by (simp add: onDidAccept_def split: sum.splits)
    next
      case SelectSSHKey
      then show ?thesis using False U W w
        by (simp add: onDidAccept_def split: option.splits)
    next
      case SelectBootScript
      then show ?thesis using False C W
        by (simp add: onDidAccept_def split: option.splits)
    next
      case Done
      then show ?thesis using False W by (simp add: onDidAccept_def)
    next
      case Cancelled
      then show ?thesis using False W by (simp add: onDidAccept_def)
    qed
  qed
qed



lemma run_append: "run cfg w (es @ es') = run cfg (run cfg w es) es'"
  by (simp add: run_def)

lemma run_Cons: "run cfg w (e # es) = run cfg (fire cfg w e) es"
  by (simp add: run_def)

lemma run_Nil: "run cfg w [] = w"
  by (simp add: run_def)

lemma start_waiting:
  assumes "createInstanceMultiStep cfg default_plan = Inr w0"
  shows "waiting w0" and "currentStep w0 = SelectPlan" and "plan w0 = initialPlan default_plan"
  using assms
  by (auto simp: createInstanceMultiStep_def updateView_def qp_show_def waiting_def
      split: if_splits)

subsection \<open>Calls of \<open>resolve\<close> are only ever added\<close>

lemma settled_waiting: "waiting w \<Longrightarrow> settled w = None"
  by (simp add: waiting_def settled_def)

lemma settled_append:
  "settled w = Some r \<Longrightarrow> resolveCalls w' = resolveCalls w @ xs \<Longrightarrow> settled w' = Some r"
  by (cases "resolveCalls w") (simp_all add: settled_def)


lemma resolveCalls_onDidHide: "\<exists>xs. resolveCalls (onDidHide w) = resolveCalls w @ xs"
  by (simp add: onDidHide_def resolve_def)

text \<open>A render calls \<open>resolve\<close> at most once, with an error; an accept calls it at most
  once, with an error or, having set the completion flag, with the completed request.\<close>

lemma resolveCalls_updateView:
  "\<exists>xs. resolveCalls (updateView cfg w) = resolveCalls w @ xs \<and> CancelledResult \<notin> set xs \<and>
        Completed \<notin> set xs \<and> length xs \<le> 1"
  by (simp add: updateView_def Let_def qp_show_def resolve_def
      split: CreateInstanceStep.splits option.splits)

lemma resolveCalls_onDidAccept:
  "\<exists>xs. resolveCalls (onDidAccept cfg sel v w) = resolveCalls w @ xs \<and>
        CancelledResult \<notin> set xs \<and> length xs \<le> 1 \<and>
        (Completed \<in> set xs \<longrightarrow> isCompleted (onDidAccept cfg sel v w))"
proof -
  have U: "\<exists>xs. resolveCalls (updateView cfg w') = resolveCalls w @ xs \<and>
        CancelledResult \<notin> set xs \<and> length xs \<le> Suc 0 \<and>
        (Completed \<in> set xs \<longrightarrow> P)"
    if "resolveCalls w' = resolveCalls w" for w' P
    using resolveCalls_updateView [of cfg w'] that by auto
  show ?thesis
    by (simp add: onDidAccept_def U resolve_def
        split: CreateInstanceStep.splits option.splits sum.splits)
qed






lemma resolveCalls_fire: "\<exists>xs. resolveCalls (fire cfg w e) = resolveCalls w @ xs"
proof (cases e)
  case (Accept sel v)
  then show ?thesis using resolveCalls_onDidAccept [of cfg sel v w] by auto
next
  case Hide
  then show ?thesis
    using resolveCalls_onDidHide [of "w\<lparr>expectingHide := visible w\<rparr>"] by simp
qed

lemma settled_fire: "settled w = Some r \<Longrightarrow> settled (fire cfg w e) = Some r"
  using resolveCalls_fire [of cfg w e] by (auto intro: settled_append)

lemma settled_run: "settled w = Some r \<Longrightarrow> settled (run cfg w es) = Some r"
  by (induction es arbitrary: w) (simp_all add: run_Nil run_Cons settled_fire)

lemma fire_waiting_or_resolved:
  assumes "waiting w"
  shows "waiting (fire cfg w e) \<or> resolveCalls (fire cfg w e) \<noteq> []"
proof (cases e)
  case (Accept sel v)
  with assms show ?thesis
    using onDidAccept_waiting_or_resolved [OF assms, of cfg sel v] by (simp add: waiting_def)
next
  case Hide
  with assms show ?thesis
    by (simp add: waiting_def onDidHide_def resolve_def)
qed












section \<open>The duration step\<close>

lemma natToString_not_white: "dropWhile isWhite (natToString n) = natToString n"
  by (simp add: digits_dropWhite natToString_digits)

lemma minus_not_white: "\<not> isWhite CHR ''-''"
  by (simp add: isWhite_def)

lemma trim_minus_digits:
  assumes "list_all isDigit ds" "ds \<noteq> []"
  shows "trim (CHR ''-'' # ds) = CHR ''-'' # ds"
proof -
  from assms obtain c cs where r: "rev ds = c # cs" by (cases "rev ds") auto
  with assms have "isDigit c" by (metis list.set_intros(1) list_all_iff set_rev)
  then have "\<not> isWhite c" by (rule digit_not_white)
  with r show ?thesis by (simp add: trim_def minus_not_white)
qed

lemma trim_intToString: "trim (intToString i) = intToString i"
  by (simp add: intToString_def trim_natToString trim_minus_digits natToString_digits
      natToString_nonempty)

lemma parseInt10_intToString: "parseInt10 (intToString i) = Fin (of_int i)"
proof (cases "i < 0")
  case True
  have "parseInt10 (CHR ''-'' # natToString (nat (- i))) = Fin (- of_nat (nat (- i)))"
    by (simp add: parseInt10_def minus_not_white digits_takeWhile natToString_digits
        natToString_nonempty digitsVal_natToString signed_def)
  with True show ?thesis by (simp add: intToString_def)
next
  case False
  then show ?thesis by (simp add: intToString_def parseInt10_natToString)
qed

lemma parseFloat_intToString_pos: "0 \<le> i \<Longrightarrow> parseFloat (intToString i) = Fin (of_int i)"
  by (simp add: intToString_def parseFloat_natToString)

lemma validateTime_nonpositive:
  "i \<le> 0 \<Longrightarrow> validateTime cfg (intToString i) = Inl NotPositiveInteger"
  by (auto simp: validateTime_def Let_def trim_intToString parseInt10_intToString jsLessEq_def
      jsStrictEq_def isNaN_def)

lemma validateTime_positive:
  assumes "0 < i"
  shows "validateTime cfg (intToString i) =
           (if jsGreater (Fin (of_int i)) (max_time (evoPermissions cfg))
            then Inl (ExceedsMaxTime (max_time (evoPermissions cfg)))
            else Inr (Fin (of_int i)))"
  using assms
  by (simp add: validateTime_def Let_def trim_intToString parseInt10_intToString
      parseFloat_intToString_pos jsLessEq_def jsStrictEq_def isNaN_def)

lemma validateTime_samples:
  "validateTime cfg ''0'' = Inl NotPositiveInteger"
  "validateTime cfg ''-1'' = Inl NotPositiveInteger"
  "validateTime cfg ''abc'' = Inl NotPositiveInteger"
  "validateTime cfg ''3.5'' = Inl DecimalsNotSupported"
  by (simp_all add: validateTime_def trim_def isWhite_def parseInt10_def parseFloat_def
      decimalLiteral_def isDigit_def digitVal_def digitsVal_def signed_def exponentPart_def
      pow10_def isNaN_def jsLessEq_def jsStrictEq_def)

lemma onDidAccept_EnterTime_rejected:
  assumes "currentStep w = EnterTime" "selection \<noteq> Some BackItem" "validateTime cfg v = Inl m"
  shows "currentStep (onDidAccept cfg selection v w) = EnterTime"
    and "plan (onDidAccept cfg selection v w) = plan w"
    and "errorMessage (onDidAccept cfg selection v w) = None"
  using assms by (simp_all add: onDidAccept_def updateView_def qp_show_def)

lemma onDidAccept_EnterTime_accepted:
  assumes "currentStep w = EnterTime" "selection \<noteq> Some BackItem" "validateTime cfg v = Inr t"
  shows "currentStep (onDidAccept cfg selection v w) = SelectSSHKey"
    and "plan (onDidAccept cfg selection v w) = (plan w)\<lparr>time := t\<rparr>"
    and "showCount (onDidAccept cfg selection v w) = showCount w + 1"
  using assms by (simp_all add: onDidAccept_def updateView_def qp_show_def)

lemma updateView_forgets_message: "updateView cfg (w\<lparr>errorMessage := m\<rparr>) = updateView cfg w"
  by (simp add: updateView_def)

lemma onDidAccept_EnterTime_refused:
  assumes "currentStep w = EnterTime" "selection \<noteq> Some BackItem" "validateTime cfg v = Inl m"
  shows "onDidAccept cfg selection v w = updateView cfg w"
  using assms by (simp add: onDidAccept_def updateView_forgets_message)

lemma updateView_EnterTime:
  assumes "currentStep w = EnterTime"
  shows "errorMessage (updateView cfg w) = None"
    and "currentStep (updateView cfg w) = EnterTime"
    and "plan (updateView cfg w) = plan w"
    and "qp_value (updateView cfg w) =
           (if truthyNum (time (plan w)) then NumberText (time (plan w)) else NoText)"
  using assms by (simp_all add: updateView_def qp_show_def)

text \<open>
  Claim C1. The duration step refuses the inputs "0", "-1", "abc" and "3.5" and the decimal
  string of every integer above the configured maximum, and for "3.5" and for an integer
  above the maximum its checks pick two different messages. But no message reaches the
  user: whichever input was refused, the handler leaves the run as a fresh render of the
  duration step leaves it, on that step, with the request untouched, the variable
  \<open>errorMessage\<close> cleared and the input box holding the earlier accepted value or
  nothing. The decimal string of every integer from 1 to the maximum moves the run to the
  SSH-key step, one step further and with one render, and stores that integer in the
  request's \<open>time\<close> field. (Integers are taken up to \<open>2^53\<close>, where the numbers of
  the source are exact.)
\<close>

theorem duration_step_shows_no_message:
  assumes step: "currentStep w = EnterTime"
    and sel: "selection \<noteq> Some BackItem"
    and maxt: "max_time (evoPermissions cfg) = Fin q"
  shows "(\<forall>v \<in> {''0'', ''-1'', ''abc'', ''3.5''}.
            onDidAccept cfg selection v w = updateView cfg w) \<and>
         (\<forall>n::int. q < of_int n \<and> \<bar>n\<bar> \<le> 9007199254740992 \<longrightarrow>
            onDidAccept cfg selection (intToString n) w = updateView cfg w) \<and>
         errorMessage (updateView cfg w) = None \<and>
         currentStep (updateView cfg w) = EnterTime \<and>
         plan (updateView cfg w) = plan w \<and>
         qp_value (updateView cfg w) =
           (if truthyNum (time (plan w)) then NumberText (time (plan w)) else NoText) \<and>
         validateTime cfg ''3.5'' = Inl DecimalsNotSupported \<and>
         (\<forall>n::int. 0 < n \<and> q < of_int n \<and> n \<le> 9007199254740992 \<longrightarrow>
            validateTime cfg (intToString n) = Inl (ExceedsMaxTime (Fin q))) \<and>
         DecimalsNotSupported \<noteq> ExceedsMaxTime (Fin q) \<and>
         (\<forall>n::int. 1 \<le> n \<and> of_int n \<le> q \<and> n \<le> 9007199254740992 \<longrightarrow>
            currentStep (onDidAccept cfg selection (intToString n) w) = SelectSSHKey \<and>
            stepIndex SelectSSHKey = stepIndex EnterTime + 1 \<and>
            showCount (onDidAccept cfg selection (intToString n) w) = showCount w + 1 \<and>
            plan (onDidAccept cfg selection (intToString n) w) = (plan w)\<lparr>time := Fin (of_int n)\<rparr>)"
proof -
  have over: "validateTime cfg (intToString n) = Inl (ExceedsMaxTime (Fin q))"
    if "0 < n" "q < of_int n" for n :: int
    using that maxt by (simp add: validateTime_positive jsGreater_def)
  have rej: "\<exists>m. validateTime cfg (intToString n) = Inl m" if "q < of_int n" for n :: int
  proof (cases "0 < n")
    case True
    with that over show ?thesis by blast
  next
    case False
    then show ?thesis by (simp add: validateTime_nonpositive)
  qed
  have acc: "validateTime cfg (intToString n) = Inr (Fin (of_int n))"
    if "1 \<le> n" "of_int n \<le> q" for n :: int
    using that maxt by (simp add: validateTime_positive jsGreater_def)
  have a: "\<forall>v \<in> {''0'', ''-1'', ''abc'', ''3.5''}.
            onDidAccept cfg selection v w = updateView cfg w"
    using onDidAccept_EnterTime_refused [OF step sel] validateTime_samples [of cfg]
    by blast
  have b: "\<forall>n::int. q < of_int n \<and> \<bar>n\<bar> \<le> 9007199254740992 \<longrightarrow>
            onDidAccept cfg selection (intToString n) w = updateView cfg w"
    using onDidAccept_EnterTime_refused [OF step sel] rej by blast
  have c: "\<forall>n::int. 1 \<le> n \<and> of_int n \<le> q \<and> n \<le> 9007199254740992 \<longrightarrow>
            currentStep (onDidAccept cfg selection (intToString n) w) = SelectSSHKey \<and>
            stepIndex SelectSSHKey = stepIndex EnterTime + 1 \<and>
            showCount (onDidAccept cfg selection (intToString n) w) = showCount w + 1 \<and>
            plan (onDidAccept cfg selection (intToString n) w) = (plan w)\<lparr>time := Fin (of_int n)\<rparr>"
    using onDidAccept_EnterTime_accepted [OF step sel] acc by simp
  have d: "\<forall>n::int. 0 < n \<and> q < of_int n \<and> n \<le> 9007199254740992 \<longrightarrow>
            validateTime cfg (intToString n) = Inl (ExceedsMaxTime (Fin q))"
    using over by blast
  note u = updateView_EnterTime [OF step, of cfg]
  from a b c d u validateTime_samples(4) [of cfg] show ?thesis
    by (intro conjI) simp_all
qed

theorem duration_step_shows_no_message_witness:
  "currentStep (run sampleConfig sampleStart
      [Accept (Some (Item ''small'' (Some ''3''))) [],
       Accept (Some (Item ''debian'' (Some ''7''))) []]) = EnterTime \<and>
   max_time (evoPermissions sampleConfig) = Fin 24 \<and>
   validateTime sampleConfig ''3.5'' = Inl DecimalsNotSupported \<and>
   validateTime sampleConfig ''25'' = Inl (ExceedsMaxTime (Fin 24)) \<and>
   onDidAccept sampleConfig None ''3.5''
      (run sampleConfig sampleStart
        [Accept (Some (Item ''small'' (Some ''3''))) [],
         Accept (Some (Item ''debian'' (Some ''7''))) []])
     = onDidAccept sampleConfig None ''25''
      (run sampleConfig sampleStart
        [Accept (Some (Item ''small'' (Some ''3''))) [],
         Accept (Some (Item ''debian'' (Some ''7''))) []]) \<and>
   errorMessage (onDidAccept sampleConfig None ''3.5''
      (run sampleConfig sampleStart
        [Accept (Some (Item ''small'' (Some ''3''))) [],
         Accept (Some (Item ''debian'' (Some ''7''))) []])) = None \<and>
   qp_value (onDidAccept sampleConfig None ''25''
      (run sampleConfig sampleStart
        [Accept (Some (Item ''small'' (Some ''3''))) [],
         Accept (Some (Item ''debian'' (Some ''7''))) []])) = NoText \<and>
   currentStep (onDidAccept sampleConfig None ''24''
      (run sampleConfig sampleStart
        [Accept (Some (Item ''small'' (Some ''3''))) [],
         Accept (Some (Item ''debian'' (Some ''7''))) []])) = SelectSSHKey \<and>
   time (plan (onDidAccept sampleConfig None ''24''
      (run sampleConfig sampleStart
        [Accept (Some (Item ''small'' (Some ''3''))) [],
         Accept (Some (Item ''debian'' (Some ''7''))) []]))) = Fin 24"
proof -
  define w where "w = run sampleConfig sampleStart
      [Accept (Some (Item ''small'' (Some ''3''))) [],
       Accept (Some (Item ''debian'' (Some ''7''))) []]"
  have s: "currentStep w = EnterTime" unfolding w_def by code_simp
  have t: "time (plan w) = NaN" unfolding w_def by code_simp
  have n: "None \<noteq> Some BackItem" by simp
  have m: "max_time (evoPermissions sampleConfig) = Fin 24" by (simp add: sampleConfig_def)
  have i25: "intToString 25 = ''25''" and i24: "intToString 24 = ''24''"
    by (simp_all add: intToString_def natToString.simps digitChar_def)
  note T = duration_step_shows_no_message [OF s n m]
  from T have a: "onDidAccept sampleConfig None ''3.5'' w = updateView sampleConfig w" by simp
  from T have "\<forall>n::int. 24 < rat_of_int n \<and> \<bar>n\<bar> \<le> 9007199254740992 \<longrightarrow>
      onDidAccept sampleConfig None (intToString n) w = updateView sampleConfig w" by blast
  from this [rule_format, of 25]
  have b: "onDidAccept sampleConfig None ''25'' w = updateView sampleConfig w"
    by (simp add: i25)
  from T have e: "errorMessage (updateView sampleConfig w) = None" by blast
  from T t have v: "qp_value (updateView sampleConfig w) = NoText"
    by (simp add: truthyNum_def)
  from T have c: "validateTime sampleConfig ''3.5'' = Inl DecimalsNotSupported" by blast
  from T have "\<forall>n::int. 0 < n \<and> 24 < rat_of_int n \<and> n \<le> 9007199254740992 \<longrightarrow>
      validateTime sampleConfig (intToString n) = Inl (ExceedsMaxTime (Fin 24))" by blast
  from this [rule_format, of 25]
  have d: "validateTime sampleConfig ''25'' = Inl (ExceedsMaxTime (Fin 24))"
    by (simp add: i25)
  from T have "\<forall>n::int. 1 \<le> n \<and> rat_of_int n \<le> 24 \<and> n \<le> 9007199254740992 \<longrightarrow>
      currentStep (onDidAccept sampleConfig None (intToString n) w) = SelectSSHKey \<and>
      stepIndex SelectSSHKey = stepIndex EnterTime + 1 \<and>
      showCount (onDidAccept sampleConfig None (intToString n) w) = showCount w + 1 \<and>
      plan (onDidAccept sampleConfig None (intToString n) w) = (plan w)\<lparr>time := Fin (rat_of_int n)\<rparr>"
    by blast
  from this [rule_format, of 24]
  have f: "currentStep (onDidAccept sampleConfig None ''24'' w) = SelectSSHKey \<and>
      time (plan (onDidAccept sampleConfig None ''24'' w)) = Fin 24"
    by (simp add: i24)
  from s m a b c d e f v show ?thesis unfolding w_def by simp
qed

section \<open>A complete run\<close>

lemma fire_Accept: "\<not> disposed w \<Longrightarrow> fire cfg w (Accept sel v) = onDidAccept cfg sel v w"
  by simp

lemma updateView_waiting: "waiting w \<Longrightarrow> viewOK cfg w \<Longrightarrow> waiting (updateView cfg w)"
  by (simp add: waiting_def updateView_ok)

lemma truthy_natToString: "truthyStr (Some (natToString n))"
  by (simp add: truthyStr_def natToString_nonempty)

lemma find_samePlanId:
  "id_P pl = Fin (of_nat r) \<Longrightarrow> find (samePlanId pl) ps = find (\<lambda>q. id_C q = r) ps"
  by (induction ps) (simp_all add: samePlanId_def jsStrictEq_def)

lemma validateTime_12:
  "\<not> jsGreater (Fin 12) (max_time (evoPermissions cfg)) \<Longrightarrow> validateTime cfg ''12'' = Inr (Fin 12)"
  by (simp add: validateTime_def trim_def isWhite_def parseInt10_def parseFloat_def decimalLiteral_def
       isDigit_def digitVal_def digitsVal_def signed_def exponentPart_def pow10_def isNaN_def jsLessEq_def jsStrictEq_def)

lemma Number_None: "Number None = NaN"
  by (simp add: Number_def)

text \<open>
  Claim C6. A run in which the user picks a plan of the catalog, one of its systems, enters
  "12" (which the maximum allows), then picks "do not use an SSH key" and "do not use a
  boot script" settles as completed, and the committed request holds the plan's and the
  system's identifiers, 12 hours, \<open>NaN\<close> as SSH key and the empty string as boot
  script; picking "do not use an SSH key" stores \<open>NaN\<close> and moves on to the
  boot-script step.
\<close>

theorem completed_run_without_key_and_script:
  assumes start: "createInstanceMultiStep cfg default_plan = Inr w0"
    and first: "find (\<lambda>q. id_C q = id_C p) (planList cfg) = Some p"
    and osl: "os_C p = OsArray osl" "v \<in> set osl"
    and maxt: "\<not> jsGreater (Fin 12) (max_time (evoPermissions cfg))"
  shows "currentStep (run cfg w0
             [Accept (Some (planItem p)) t1, Accept (Some (osItem v)) t2, Accept None ''12'',
              Accept (Some (Item noSSHKeyLabel None)) t4]) = SelectBootScript \<and>
         sshKey (plan (run cfg w0
             [Accept (Some (planItem p)) t1, Accept (Some (osItem v)) t2, Accept None ''12'',
              Accept (Some (Item noSSHKeyLabel None)) t4])) = NaN \<and>
         settled (run cfg w0
             [Accept (Some (planItem p)) t1, Accept (Some (osItem v)) t2, Accept None ''12'',
              Accept (Some (Item noSSHKeyLabel None)) t4,
              Accept (Some (Item noBootScriptLabel None)) t5]) = Some Completed \<and>
         committed (run cfg w0
             [Accept (Some (planItem p)) t1, Accept (Some (osItem v)) t2, Accept None ''12'',
              Accept (Some (Item noSSHKeyLabel None)) t4,
              Accept (Some (Item noBootScriptLabel None)) t5])
             = Some \<lparr>id_P = Fin (of_nat (id_C p)), os_P = Fin (of_nat (id_O v)), time = Fin 12,
                     sshKey = NaN, bootScript = []\<rparr>"
proof -
  define w1 where "w1 = fire cfg w0 (Accept (Some (planItem p)) t1)"
  define w2 where "w2 = fire cfg w1 (Accept (Some (osItem v)) t2)"
  define w3 where "w3 = fire cfg w2 (Accept None ''12'')"
  define w4 where "w4 = fire cfg w3 (Accept (Some (Item noSSHKeyLabel None)) t4)"
  define w5 where "w5 = fire cfg w4 (Accept (Some (Item noBootScriptLabel None)) t5)"
  have r: "run cfg w0
             [Accept (Some (planItem p)) t1, Accept (Some (osItem v)) t2, Accept None ''12'',
              Accept (Some (Item noSSHKeyLabel None)) t4,
              Accept (Some (Item noBootScriptLabel None)) t5] = w5"
    by (simp add: run_def w1_def w2_def w3_def w4_def w5_def)
  have r4: "run cfg w0
             [Accept (Some (planItem p)) t1, Accept (Some (osItem v)) t2, Accept None ''12'',
              Accept (Some (Item noSSHKeyLabel None)) t4] = w4"
    by (simp add: run_def w1_def w2_def w3_def w4_def)
  note s0 = start_waiting [OF start]
  from osl have osne: "osl \<noteq> []" by auto
  let ?u1 = "w0\<lparr>plan := (plan w0)\<lparr>id_P := Fin (of_nat (id_C p))\<rparr>, currentStep := SelectOS\<rparr>"
  have e1: "w1 = updateView cfg ?u1"
    using s0 by (simp add: w1_def waiting_def onDidAccept_def planItem_def truthy_natToString
        Number_natToString)
  have "viewOK cfg ?u1"
    using first osl osne by (simp add: viewOK_def find_samePlanId)
  with s0 have s1: "waiting w1" "currentStep w1 = SelectOS"
      "plan w1 = (plan w0)\<lparr>id_P := Fin (of_nat (id_C p))\<rparr>"
    by (simp_all add: e1 updateView_waiting)
  let ?u2 = "w1\<lparr>plan := (plan w1)\<lparr>os_P := Fin (of_nat (id_O v))\<rparr>, currentStep := EnterTime\<rparr>"
  have e2: "w2 = updateView cfg ?u2"
    using s1 by (simp add: w2_def waiting_def onDidAccept_def osItem_def truthy_natToString
        Number_natToString)
  have "viewOK cfg ?u2" by (simp add: viewOK_def)
  with s1 have s2: "waiting w2" "currentStep w2 = EnterTime"
      "plan w2 = (plan w0)\<lparr>id_P := Fin (of_nat (id_C p)), os_P := Fin (of_nat (id_O v))\<rparr>"
    by (simp_all add: e2 updateView_waiting)
  let ?u3 = "w2\<lparr>plan := (plan w2)\<lparr>time := Fin 12\<rparr>, currentStep := SelectSSHKey\<rparr>"
  have e3: "w3 = updateView cfg ?u3"
    using s2 maxt by (simp add: w3_def waiting_def onDidAccept_def validateTime_12)
  have "viewOK cfg ?u3" by (simp add: viewOK_def)
  with s2 have s3: "waiting w3" "currentStep w3 = SelectSSHKey"
      "plan w3 = (plan w0)\<lparr>id_P := Fin (of_nat (id_C p)), os_P := Fin (of_nat (id_O v)),
                             time := Fin 12\<rparr>"
    by (simp_all add: e3 updateView_waiting)
  let ?u4 = "w3\<lparr>plan := (plan w3)\<lparr>sshKey := NaN\<rparr>, currentStep := SelectBootScript\<rparr>"
  have e4: "w4 = updateView cfg ?u4"
    using s3 by (simp add: w4_def waiting_def onDidAccept_def Number_None truthyNum_def)
  have "viewOK cfg ?u4" by (simp add: viewOK_def)
  with s3 have s4: "waiting w4" "currentStep w4 = SelectBootScript"
      "plan w4 = (plan w0)\<lparr>id_P := Fin (of_nat (id_C p)), os_P := Fin (of_nat (id_O v)),
                             time := Fin 12, sshKey := NaN\<rparr>"
    by (simp_all add: e4 updateView_waiting)
  have e5: "w5 = qp_hide (resolve Completed (w4\<lparr>plan := (plan w4)\<lparr>bootScript := []\<rparr>,
                                                 isCompleted := True\<rparr>))"
    using s4 by (simp add: w5_def waiting_def onDidAccept_def)
  from complete_resolved [OF s4(1), of "(plan w4)\<lparr>bootScript := []\<rparr>"]
  have c5: "resolveCalls w5 = [Completed]" by (simp add: e5)
  have p5: "plan w5 = \<lparr>id_P = Fin (of_nat (id_C p)), os_P = Fin (of_nat (id_O v)), time = Fin 12,
                     sshKey = NaN, bootScript = []\<rparr>"
    by (simp add: e5 s4 resolve_def)
  from c5 p5 s4 show ?thesis by (simp add: r r4 settled_def committed_def)
qed

theorem completed_run_without_key_and_script_witness:
  "createInstanceMultiStep sampleConfig None = Inr sampleStart \<and>
   settled (run sampleConfig sampleStart
      [Accept (Some (Item ''small'' (Some ''3''))) [], Accept (Some (Item ''debian'' (Some ''7''))) [],
       Accept None ''12'', Accept (Some (Item noSSHKeyLabel None)) [],
       Accept (Some (Item noBootScriptLabel None)) []]) = Some Completed \<and>
   committed (run sampleConfig sampleStart
      [Accept (Some (Item ''small'' (Some ''3''))) [], Accept (Some (Item ''debian'' (Some ''7''))) [],
       Accept None ''12'', Accept (Some (Item noSSHKeyLabel None)) [],
       Accept (Some (Item noBootScriptLabel None)) []])
     = Some \<lparr>id_P = Fin 3, os_P = Fin 7, time = Fin 12, sshKey = NaN, bootScript = []\<rparr>"
proof -
  let ?p = "\<lparr>id_C = 3, name_C = ''small'', os_C = OsArray [\<lparr>id_O = 7, name_O = ''debian''\<rparr>]\<rparr>"
  let ?v = "\<lparr>id_O = 7, name_O = ''debian''\<rparr>"
  have h1: "createInstanceMultiStep sampleConfig None = Inr sampleStart"
    by code_simp
  have h2: "find (\<lambda>q. id_C q = id_C ?p) (planList sampleConfig) = Some ?p"
    by (simp add: sampleConfig_def)
  have h3: "os_C ?p = OsArray [?v]" by simp
  have h4: "?v \<in> set [?v]" by simp
  have h5: "\<not> jsGreater (Fin 12) (max_time (evoPermissions sampleConfig))"
    by (simp add: sampleConfig_def jsGreater_def)
  from completed_run_without_key_and_script [OF h1 h2 h3 h4 h5, of "[]" "[]" "[]" "[]"]
  show ?thesis using h1
    by (simp add: planItem_def osItem_def natToString.simps digitChar_def)
qed

section \<open>The polling loops\<close>

lemma emptyPolls_Suc: "emptyPolls (Suc n) = GetCommandResult # Delay 5000 # emptyPolls n"
  by (simp add: emptyPolls_def)

lemma emptyPolls_0: "emptyPolls 0 = []"
  by (simp add: emptyPolls_def)

lemma pollBootScriptLoop_pending:
  "attempts < maxAttempts \<Longrightarrow> pendingReply (api attempts) \<Longrightarrow>
   pollBootScriptLoop api view uid name maxAttempts attempts =
     GetCommandResult # Delay 5000 # pollBootScriptLoop api view uid name maxAttempts (attempts + 1)"
  by (subst pollBootScriptLoop.simps) (auto simp: pendingReply_def split: reply.splits)

lemma pollBootScriptLoop_failed:
  "attempts < maxAttempts \<Longrightarrow> api attempts = Rejected st rm em \<Longrightarrow> st \<noteq> Some 202 \<Longrightarrow>
   pollBootScriptLoop api view uid name maxAttempts attempts =
     [GetCommandResult,
      UpdateLogEntry uid ''failed'' (FetchFailed (errorDetail rm em)),
      ShowErrorMessage (ScriptFailed name (FetchFailed (errorDetail rm em)))]"
  by (subst pollBootScriptLoop.simps) (simp add: errorDetail_def)

lemma pollBootScriptLoop_exhausted:
  "\<not> attempts < maxAttempts \<Longrightarrow>
   pollBootScriptLoop api view uid name maxAttempts attempts =
     [UpdateLogEntry uid ''failed'' FetchTimedOut, ShowWarningMessage (ScriptResultTimedOut name)]"
  by (subst pollBootScriptLoop.simps) simp

lemma pollBootScriptLoop_all_pending:
  assumes "\<forall>k. attempts \<le> k \<and> k < maxAttempts \<longrightarrow> pendingReply (api k)"
  shows "pollBootScriptLoop api view uid name maxAttempts attempts =
           emptyPolls (maxAttempts - attempts)
           @ [UpdateLogEntry uid ''failed'' FetchTimedOut,
              ShowWarningMessage (ScriptResultTimedOut name)]"
  using assms
proof (induction "maxAttempts - attempts" arbitrary: attempts)
  case 0
  then show ?case by (simp add: pollBootScriptLoop_exhausted emptyPolls_0)
next
  case (Suc n)
  then have lt: "attempts < maxAttempts" by simp
  with Suc.prems have p: "pendingReply (api attempts)" by simp
  from Suc.hyps(2) have n: "n = maxAttempts - (attempts + 1)" by simp
  have "\<forall>k. attempts + 1 \<le> k \<and> k < maxAttempts \<longrightarrow> pendingReply (api k)"
    using Suc.prems by simp
  from Suc.hyps(1) [OF n this] Suc.hyps(2) [symmetric] n show ?case
    by (simp add: pollBootScriptLoop_pending [of attempts maxAttempts api, OF lt p] emptyPolls_Suc)
qed

lemma pollBootScriptLoop_fails_at:
  assumes "\<forall>j. attempts \<le> j \<and> j < k \<longrightarrow> pendingReply (api j)"
    and "attempts \<le> k" "k < maxAttempts"
    and "api k = Rejected st rm em" "st \<noteq> Some 202"
  shows "pollBootScriptLoop api view uid name maxAttempts attempts =
           emptyPolls (k - attempts)
           @ [GetCommandResult,
              UpdateLogEntry uid ''failed'' (FetchFailed (errorDetail rm em)),
              ShowErrorMessage (ScriptFailed name (FetchFailed (errorDetail rm em)))]"
  using assms(1,2)
proof (induction "k - attempts" arbitrary: attempts)
  case 0
  then have "attempts = k" by simp
  with assms(3-5) show ?case
    by (simp add: pollBootScriptLoop_failed emptyPolls_0)
next
  case (Suc n)
  then have lt: "attempts < k" by simp
  with assms(3) have lt': "attempts < maxAttempts" by simp
  from lt Suc.prems have p: "pendingReply (api attempts)" by simp
  from Suc.hyps(2) have n: "n = k - (attempts + 1)" by simp
  have "\<forall>j. attempts + 1 \<le> j \<and> j < k \<longrightarrow> pendingReply (api j)"
    using Suc.prems by simp
  from Suc.hyps(1) [OF n this] lt Suc.hyps(2) [symmetric] n show ?case
    by (simp add: pollBootScriptLoop_pending [of attempts maxAttempts api, OF lt' p] emptyPolls_Suc)
qed

lemma count_emptyPolls: "count_list (emptyPolls n) GetCommandResult = n"
  by (induction n) (simp_all add: emptyPolls_0 emptyPolls_Suc)

lemma count_emptyPolls_other:
  "e \<noteq> GetCommandResult \<Longrightarrow> e \<noteq> Delay 5000 \<Longrightarrow> count_list (emptyPolls n) e = 0"
  by (induction n) (simp_all add: emptyPolls_0 emptyPolls_Suc)

lemma getInstanceState_effects:
  "e \<in> set (snd (getInstanceState r)) \<Longrightarrow> \<exists>m. e = ShowErrorMessage (StateFetchFailed m)"
  by (auto simp: getInstanceState_def Let_def split: reply.splits option.splits if_splits)

lemma getInstanceState_count [simp]:
  "count_list (snd (getInstanceState r)) GetInstanceState = 0"
  using getInstanceState_effects [of GetInstanceState r]
  by (auto simp: count_list_0_iff)

lemma instanceStateLoop_effects:
  "e \<in> set (instanceStateLoop api target maxAttempts st attempts) \<Longrightarrow>
   e = Delay 2000 \<or> e = GetInstanceState \<or> (\<exists>m. e = ShowErrorMessage (StateFetchFailed m))"
proof (induction api target maxAttempts st attempts rule: instanceStateLoop.induct)
  case (1 api target maxAttempts st attempts)
  show ?case
  proof (cases "powerStateOf st \<noteq> Some target \<and> attempts < maxAttempts")
    case True
    with "1.prems" have
      "e = Delay 2000 \<or> e = GetInstanceState
       \<or> e \<in> set (snd (getInstanceState (api (attempts + 1))))
       \<or> e \<in> set (instanceStateLoop api target maxAttempts
                    (fst (getInstanceState (api (attempts + 1)))) (attempts + 1))"
      by (subst (asm) instanceStateLoop.simps) auto
    with "1.IH" [OF True] getInstanceState_effects show ?thesis by blast
  next
    case False
    with "1.prems" show ?thesis by (subst (asm) instanceStateLoop.simps) simp
  qed
qed

lemma instanceStateLoop_never:
  assumes never: "\<forall>k. k \<le> maxAttempts \<longrightarrow> powerStateOf (fst (getInstanceState (api k))) \<noteq> Some target"
  shows "powerStateOf st \<noteq> Some target \<Longrightarrow>
         count_list (instanceStateLoop api target maxAttempts st attempts) GetInstanceState
           = maxAttempts - attempts"
proof (induction "maxAttempts - attempts" arbitrary: attempts st)
  case 0
  then show ?case by (subst instanceStateLoop.simps) simp
next
  case (Suc n)
  then have lt: "attempts < maxAttempts" by simp
  then have "attempts + 1 \<le> maxAttempts" by simp
  with never have nx: "powerStateOf (fst (getInstanceState (api (attempts + 1)))) \<noteq> Some target"
    by blast
  from Suc.hyps(2) have n: "n = maxAttempts - (attempts + 1)" by simp
  from Suc.hyps(1) [OF n nx] lt Suc.prems Suc.hyps(2) show ?case
    by (subst instanceStateLoop.simps) simp
qed

lemma instanceStateLoop_reached:
  "powerStateOf st = Some target \<Longrightarrow> instanceStateLoop api target maxAttempts st attempts = []"
  by (subst instanceStateLoop.simps) simp

lemma statePolls_Suc: "statePolls (Suc n) = Delay 2000 # GetInstanceState # statePolls n"
  by (simp add: statePolls_def)

lemma count_statePolls: "count_list (statePolls n) GetInstanceState = n"
  by (induction n) (simp_all add: statePolls_def)

lemma instanceStateLoop_never_quiet:
  assumes never: "\<forall>k. k \<le> maxAttempts \<longrightarrow>
      powerStateOf (fst (getInstanceState (api k))) \<noteq> Some target \<and> snd (getInstanceState (api k)) = []"
  shows "powerStateOf st \<noteq> Some target \<Longrightarrow>
         instanceStateLoop api target maxAttempts st attempts = statePolls (maxAttempts - attempts)"
proof (induction "maxAttempts - attempts" arbitrary: attempts st)
  case 0
  then show ?case by (subst instanceStateLoop.simps) (simp add: statePolls_def)
next
  case (Suc n)
  then have lt: "attempts < maxAttempts" by simp
  then have "attempts + 1 \<le> maxAttempts" by simp
  with never have nx: "powerStateOf (fst (getInstanceState (api (attempts + 1)))) \<noteq> Some target"
    and q: "snd (getInstanceState (api (attempts + 1))) = []"
    by blast+
  from Suc.hyps(2) have n: "n = maxAttempts - (attempts + 1)" by simp
  from Suc.hyps(1) [OF n nx] lt Suc.prems Suc.hyps(2) [symmetric] q n show ?case
    by (subst instanceStateLoop.simps) (simp add: statePolls_Suc)
qed

lemma alwaysStopped_reply:
  "powerStateOf (fst (getInstanceState (alwaysStopped k))) = Some ''stopped''"
  "snd (getInstanceState (alwaysStopped k)) = []"
  by (simp_all add: alwaysStopped_def sampleState_def getInstanceState_def powerStateOf_def Let_def)

text \<open>
  Claim C2, as the code has it. When no poll of the boot-script result carries an output
  (every reply is empty or pending), the poll with bound \<open>N\<close> asks exactly \<open>N\<close> times,
  five seconds apart, and then records and shows a time-out as a warning: 180 requests for
  \<open>pollBootScriptResult\<close>. The instance-state loops are different: they ask once before
  the loop and once in each of its at most \<open>N\<close> rounds, so 61 times for \<open>N = 60\<close> when
  the awaited state never shows, and what follows the loop is what follows a success (the
  progress reports the creation, the power menu reports success); they have no time-out
  outcome.
\<close>

theorem polls_when_never_satisfied:
  "((\<forall>k. k < N \<longrightarrow> pendingReply (cmdApi k)) \<longrightarrow>
      pollBootScriptLoop cmdApi view uid name N 0 =
        emptyPolls N @ [UpdateLogEntry uid ''failed'' FetchTimedOut,
                        ShowWarningMessage (ScriptResultTimedOut name)] \<and>
      count_list (pollBootScriptLoop cmdApi view uid name N 0) GetCommandResult = N) \<and>
   ((\<forall>k. k < 180 \<longrightarrow> pendingReply (cmdApi k)) \<longrightarrow>
      pollBootScriptResult cmdApi view uid name =
        emptyPolls 180 @ [UpdateLogEntry uid ''failed'' FetchTimedOut,
                          ShowWarningMessage (ScriptResultTimedOut name)] \<and>
      count_list (pollBootScriptResult cmdApi view uid name) GetCommandResult = 180) \<and>
   ((\<forall>k. k \<le> 60 \<longrightarrow> powerStateOf (fst (getInstanceState (api k))) \<noteq> Some ''running'') \<longrightarrow>
      count_list (createInstanceProgress api cmdApi view None pl) GetInstanceState = 61 \<and>
      Report InstanceCreated \<in> set (createInstanceProgress api cmdApi view None pl) \<and>
      (\<forall>m. ShowWarningMessage m \<notin> set (createInstanceProgress api cmdApi view None pl))) \<and>
   ((\<forall>k. k \<le> 60 \<longrightarrow> powerStateOf (fst (getInstanceState (api k))) \<noteq> Some (powerTarget action)) \<longrightarrow>
      count_list (powerInstanceProgress api action label) GetInstanceState = 61 \<and>
      ShowInformationMessage (PowerSucceeded label) \<in> set (powerInstanceProgress api action label) \<and>
      (\<forall>m. ShowWarningMessage m \<notin> set (powerInstanceProgress api action label)))"
proof -
  have boot: "pollBootScriptLoop cmdApi view uid name M 0 =
        emptyPolls M @ [UpdateLogEntry uid ''failed'' FetchTimedOut,
                        ShowWarningMessage (ScriptResultTimedOut name)] \<and>
      count_list (pollBootScriptLoop cmdApi view uid name M 0) GetCommandResult = M"
    if "\<forall>k. k < M \<longrightarrow> pendingReply (cmdApi k)" for M
  proof -
    from that have "\<forall>k. 0 \<le> k \<and> k < M \<longrightarrow> pendingReply (cmdApi k)" by simp
    from pollBootScriptLoop_all_pending [OF this, of view uid name]
    show ?thesis by (simp add: count_emptyPolls)
  qed
  have nowarn: "ShowWarningMessage m \<notin> set (snd (getInstanceState r))" for m r
    using getInstanceState_effects [of "ShowWarningMessage m" r] by auto
  have nowarn': "ShowWarningMessage m \<notin> set (instanceStateLoop api tg 60 st 0)" for m tg st
    using instanceStateLoop_effects [of "ShowWarningMessage m" api tg 60 st 0] by auto
  have create: "count_list (createInstanceProgress api cmdApi view None pl) GetInstanceState = 61 \<and>
      Report InstanceCreated \<in> set (createInstanceProgress api cmdApi view None pl) \<and>
      (\<forall>m. ShowWarningMessage m \<notin> set (createInstanceProgress api cmdApi view None pl))"
    if h: "\<forall>k. k \<le> 60 \<longrightarrow> powerStateOf (fst (getInstanceState (api k))) \<noteq> Some ''running''"
  proof -
    from h have "powerStateOf (fst (getInstanceState (api 0))) \<noteq> Some ''running''" by simp
    from instanceStateLoop_never [OF h this, of 0] show ?thesis
      by (simp add: createInstanceProgress_def truthyStr_def nowarn nowarn')
  qed
  have power: "count_list (powerInstanceProgress api action label) GetInstanceState = 61 \<and>
      ShowInformationMessage (PowerSucceeded label) \<in> set (powerInstanceProgress api action label) \<and>
      (\<forall>m. ShowWarningMessage m \<notin> set (powerInstanceProgress api action label))"
    if h: "\<forall>k. k \<le> 60 \<longrightarrow> powerStateOf (fst (getInstanceState (api k))) \<noteq> Some (powerTarget action)"
  proof -
    from h have "powerStateOf (fst (getInstanceState (api 0))) \<noteq> Some (powerTarget action)" by simp
    from instanceStateLoop_never [OF h this, of 0] show ?thesis
      by (simp add: powerInstanceProgress_def nowarn nowarn')
  qed
  from boot [of N] boot [of 180] create power show ?thesis
    unfolding pollBootScriptResult_def by blast
qed

theorem polls_when_never_satisfied_witness:
  "pollBootScriptResult alwaysPending False ''uid'' ''setup.sh'' =
     emptyPolls 180 @ [UpdateLogEntry ''uid'' ''failed'' FetchTimedOut,
                       ShowWarningMessage (ScriptResultTimedOut ''setup.sh'')] \<and>
   count_list (pollBootScriptResult alwaysPending False ''uid'' ''setup.sh'') GetCommandResult = 180 \<and>
   count_list (createInstanceProgress alwaysStopped alwaysPending False None samplePlan)
     GetInstanceState = 61 \<and>
   Report InstanceCreated \<in> set (createInstanceProgress alwaysStopped alwaysPending False None samplePlan) \<and>
   count_list (powerInstanceProgress alwaysStopped Boot ''boot'') GetInstanceState = 61"
proof -
  have p: "\<forall>k. k < 180 \<longrightarrow> pendingReply (alwaysPending k)"
    by (simp add: pendingReply_def alwaysPending_def)
  have s: "\<forall>k. k \<le> 60 \<longrightarrow> powerStateOf (fst (getInstanceState (alwaysStopped k))) \<noteq> Some ''running''"
    by (simp add: alwaysStopped_reply)
  have s': "\<forall>k. k \<le> 60 \<longrightarrow> powerStateOf (fst (getInstanceState (alwaysStopped k))) \<noteq> Some (powerTarget Boot)"
    by (simp add: alwaysStopped_reply powerTarget_def)
  from polls_when_never_satisfied [of 180 alwaysPending False "''uid''" "''setup.sh''" alwaysStopped samplePlan Boot "''boot''"]
    p s s'
  show ?thesis by (simp add: count_emptyPolls)
qed

text \<open>
  Claim C2, as stated, fails for the instance-state loops: against a remote that always
  answers "stopped", the creation asks 61 times, not 60, and then reports the instance as
  created.
\<close>

theorem instance_poll_counterexample:
  "createInstanceProgress alwaysStopped alwaysPending False None samplePlan =
     Delay 2000 # GetInstanceState # statePolls 60 @ [Report InstanceCreated, Delay 1000] \<and>
   count_list (createInstanceProgress alwaysStopped alwaysPending False None samplePlan)
     GetInstanceState = 61 \<and>
   count_list (createInstanceProgress alwaysStopped alwaysPending False None samplePlan)
     GetInstanceState \<noteq> 60"
proof -
  have q: "\<forall>k. k \<le> 60 \<longrightarrow>
      powerStateOf (fst (getInstanceState (alwaysStopped k))) \<noteq> Some ''running'' \<and>
      snd (getInstanceState (alwaysStopped k)) = []"
    by (simp add: alwaysStopped_reply)
  have "powerStateOf (fst (getInstanceState (alwaysStopped 0))) \<noteq> Some ''running''"
    by (simp add: alwaysStopped_reply)
  from instanceStateLoop_never_quiet [OF q this, of 0]
  show ?thesis
    by (simp add: createInstanceProgress_def truthyStr_def alwaysStopped_reply count_statePolls)
qed

text \<open>
  Claim C5. In the boot-script poll a reply classified as pending (an error of status 202)
  ends nothing: the loop waits and goes on with the next attempt. An error of any other
  status ends the poll at once: the detail (the response's message, or the error's when
  the response has none) is written once to the log as failed and shown once as an error.
  So a run whose first \<open>k\<close> replies are pending and whose next reply is such an error
  asks \<open>k + 1\<close> times and reports the failure exactly once.
\<close>

theorem pending_continues_error_aborts:
  "(attempts < maxAttempts \<and> api attempts = Rejected (Some 202) rm em \<longrightarrow>
      pollBootScriptLoop api view uid name maxAttempts attempts =
        GetCommandResult # Delay 5000
        # pollBootScriptLoop api view uid name maxAttempts (attempts + 1)) \<and>
   (attempts < maxAttempts \<and> api attempts = Rejected st rm em \<and> st \<noteq> Some 202 \<longrightarrow>
      pollBootScriptLoop api view uid name maxAttempts attempts =
        [GetCommandResult,
         UpdateLogEntry uid ''failed'' (FetchFailed (errorDetail rm em)),
         ShowErrorMessage (ScriptFailed name (FetchFailed (errorDetail rm em)))]) \<and>
   ((\<forall>j. j < k \<longrightarrow> pendingReply (api j)) \<and> k < 180 \<and> api k = Rejected st rm em \<and> st \<noteq> Some 202 \<longrightarrow>
      pollBootScriptResult api view uid name =
        emptyPolls k
        @ [GetCommandResult,
           UpdateLogEntry uid ''failed'' (FetchFailed (errorDetail rm em)),
           ShowErrorMessage (ScriptFailed name (FetchFailed (errorDetail rm em)))] \<and>
      count_list (pollBootScriptResult api view uid name)
        (UpdateLogEntry uid ''failed'' (FetchFailed (errorDetail rm em))) = 1 \<and>
      count_list (pollBootScriptResult api view uid name)
        (ShowErrorMessage (ScriptFailed name (FetchFailed (errorDetail rm em)))) = 1 \<and>
      count_list (pollBootScriptResult api view uid name) GetCommandResult = k + 1)"
proof -
  have a: "pollBootScriptLoop api view uid name maxAttempts attempts =
        GetCommandResult # Delay 5000
        # pollBootScriptLoop api view uid name maxAttempts (attempts + 1)"
    if "attempts < maxAttempts" "api attempts = Rejected (Some 202) rm em"
    using that by (simp add: pollBootScriptLoop_pending pendingReply_def)
  have b: "pollBootScriptLoop api view uid name maxAttempts attempts =
        [GetCommandResult,
         UpdateLogEntry uid ''failed'' (FetchFailed (errorDetail rm em)),
         ShowErrorMessage (ScriptFailed name (FetchFailed (errorDetail rm em)))]"
    if "attempts < maxAttempts" "api attempts = Rejected st rm em" "st \<noteq> Some 202"
    using that by (rule pollBootScriptLoop_failed)
  have c: "pollBootScriptResult api view uid name =
        emptyPolls k
        @ [GetCommandResult,
           UpdateLogEntry uid ''failed'' (FetchFailed (errorDetail rm em)),
           ShowErrorMessage (ScriptFailed name (FetchFailed (errorDetail rm em)))]"
    if "\<forall>j. j < k \<longrightarrow> pendingReply (api j)" "k < 180" "api k = Rejected st rm em" "st \<noteq> Some 202"
  proof -
    from that(1) have "\<forall>j. 0 \<le> j \<and> j < k \<longrightarrow> pendingReply (api j)" by simp
    from pollBootScriptLoop_fails_at [OF this _ that(2) that(3) that(4), of view uid name]
    show ?thesis by (simp add: pollBootScriptResult_def)
  qed
  from a b c show ?thesis
    by (auto simp: count_emptyPolls count_emptyPolls_other)
qed

theorem pending_continues_error_aborts_witness:
  "pollBootScriptResult failsAtThird False ''uid'' ''setup.sh'' =
     emptyPolls 2
     @ [GetCommandResult,
        UpdateLogEntry ''uid'' ''failed'' (FetchFailed ''boom''),
        ShowErrorMessage (ScriptFailed ''setup.sh'' (FetchFailed ''boom''))] \<and>
   count_list (pollBootScriptResult failsAtThird False ''uid'' ''setup.sh'') GetCommandResult = 3 \<and>
   pollBootScriptLoop alwaysPending False ''uid'' ''setup.sh'' 180 7 =
     GetCommandResult # Delay 5000 # pollBootScriptLoop alwaysPending False ''uid'' ''setup.sh'' 180 8"
proof -
  have p: "\<forall>j. j < 2 \<longrightarrow> pendingReply (failsAtThird j)"
    by (simp add: pendingReply_def failsAtThird_def)
  have e: "failsAtThird 2 = Rejected (Some 500) (Some ''boom'') ''Request failed with status code 500''"
    by (simp add: failsAtThird_def)
  have d: "errorDetail (Some ''boom'') ''Request failed with status code 500'' = ''boom''"
    by (simp add: errorDetail_def truthyStr_def)
  have q: "alwaysPending 7 = Rejected (Some 202) None ''Request failed with status code 202''"
    by (simp add: alwaysPending_def)
  from pending_continues_error_aborts [of 7 180 alwaysPending None
      "''Request failed with status code 202''" False "''uid''" "''setup.sh''" "Some 500" 0]
    q
  have one: "pollBootScriptLoop alwaysPending False ''uid'' ''setup.sh'' 180 7 =
     GetCommandResult # Delay 5000 # pollBootScriptLoop alwaysPending False ''uid'' ''setup.sh'' 180 8"
    by simp
  from pending_continues_error_aborts [of 0 0 failsAtThird "Some ''boom''"
      "''Request failed with status code 500''" False "''uid''" "''setup.sh''" "Some 500" 2]
    p e d
  show ?thesis using one by (simp add: count_emptyPolls)
qed

section \<open>Memory figures\<close>

lemma fixed2_memory:
  "fixed2 (of_nat k / (1024 * 1024)) =
     natToString (((200 * k + 1048576) div 2097152) div 100)
     @ ''.'' @ twoDigits (((200 * k + 1048576) div 2097152) mod 100)"
proof -
  have "(of_nat k / (1024 * 1024) * 100 + 1 / 2 :: rat)
          = of_nat (200 * k + 1048576) / of_nat 2097152"
    by (simp add: field_simps)
  then have "floor (of_nat k / (1024 * 1024) * 100 + 1 / 2 :: rat)
          = int ((200 * k + 1048576) div 2097152)"
    by (simp only: floor_divide_of_nat_eq)
  then show ?thesis by (simp add: fixed2_def Let_def)
qed

lemma formatMemory_natToString:
  "formatMemory (natToString k) =
     natToString (((200 * k + 1048576) div 2097152) div 100)
     @ ''.'' @ twoDigits (((200 * k + 1048576) div 2097152) mod 100)"
proof -
  have "formatMemory (natToString k) = fixed2 (of_nat k / (1024 * 1024))"
    by (simp add: formatMemory_def parseInt10_natToString)
  then show ?thesis by (simp only: fixed2_memory)
qed

lemma natToString_zero: "natToString a = ''0'' \<longleftrightarrow> a = 0"
proof
  assume "natToString a = ''0''"
  then have "digitsVal (natToString a) = digitsVal ''0''" by simp
  moreover have "digitsVal ''0'' = 0" by (simp add: digitsVal_def)
  ultimately show "a = 0" by (simp add: digitsVal_natToString)
next
  assume "a = 0"
  then show "natToString a = ''0''" by (simp add: natToString.simps digitChar_def)
qed

lemma digitChar_zero: "d < 10 \<Longrightarrow> digitChar d = CHR ''0'' \<longleftrightarrow> d = 0"
proof
  assume d: "d < 10" and "digitChar d = CHR ''0''"
  then have "(of_char (digitChar d) :: nat) = of_char CHR ''0''" by simp
  with d show "d = 0" by (simp add: digitChar_code)
next
  assume "d = 0"
  then show "digitChar d = CHR ''0''" by (simp add: digitChar_def)
qed

lemma twoDigits_zero: "b < 100 \<Longrightarrow> twoDigits b = ''00'' \<longleftrightarrow> b = 0"
proof -
  assume b: "b < 100"
  then have "b div 10 < 10" "b mod 10 < 10" by simp_all
  then have "twoDigits b = ''00'' \<longleftrightarrow> b div 10 = 0 \<and> b mod 10 = 0"
    by (simp add: twoDigits_def digitChar_zero)
  also have "\<dots> \<longleftrightarrow> b = 0" by auto
  finally show ?thesis .
qed

lemma fixed_zero:
  assumes "b < 100"
  shows "natToString a @ ''.'' @ twoDigits b = ''0.00'' \<longleftrightarrow> a = 0 \<and> b = 0"
proof -
  have "natToString a @ (''.'' @ twoDigits b) = ''0'' @ (''.'' @ ''00'')
          \<longleftrightarrow> natToString a = ''0'' \<and> ''.'' @ twoDigits b = ''.'' @ ''00''"
    by (rule append_eq_append_conv) (simp add: twoDigits_def)
  then show ?thesis using assms by (simp add: natToString_zero twoDigits_zero)
qed

lemma formatMemory_zero_iff: "formatMemory (natToString k) = ''0.00'' \<longleftrightarrow> k \<le> 5242"
proof -
  let ?n = "(200 * k + 1048576) div 2097152"
  have "formatMemory (natToString k) = ''0.00'' \<longleftrightarrow> ?n div 100 = 0 \<and> ?n mod 100 = 0"
    by (simp only: formatMemory_natToString) (rule fixed_zero, simp)
  also have "\<dots> \<longleftrightarrow> ?n = 0" by auto
  also have "\<dots> \<longleftrightarrow> k \<le> 5242" by (simp add: div_eq_0_iff) arith
  finally show ?thesis .
qed

lemma getInstanceState_complete:
  assumes "status info = ''complete''" "state_S info = Some s"
  shows "getInstanceState (Resolved 200 (Some info)) =
           (Some (info\<lparr>state_S := Some
              (s\<lparr>memory := \<lparr>memtotal = formatMemory (memtotal (memory s)),
                              memfree = formatMemory (memfree (memory s)),
                              memavailable = formatMemory (memavailable (memory s))\<rparr>,
                  traffic := \<lparr>traffic_in = bytesToGB (traffic_in (traffic s)),
                               traffic_out = bytesToGB (traffic_out (traffic s)),
                               traffic_total = bytesToGB (traffic_total (traffic s))\<rparr>,
                  state := (if formatMemory (memavailable (memory s)) = ''0.00''
                            then ''stopped'' else state s)\<rparr>)\<rparr>), [])"
  using assms by (simp add: getInstanceState_def Let_def)

lemma reportsNoMemory_stopped:
  assumes "reportsNoMemory r"
  shows "powerStateOf (fst (getInstanceState r)) = Some ''stopped''"
    and "snd (getInstanceState r) = []"
  using assms
  by (auto simp: reportsNoMemory_def powerStateOf_def getInstanceState_complete
      split: reply.splits option.splits)

text \<open>Sample figures: one gigabyte, half a gigabyte, fifteen and a half, and the two
  figures around the threshold; one and a half gigabytes of traffic.\<close>

lemma formatMemory_samples:
  "formatMemory ''1048576'' = ''1.00''"
  "formatMemory ''524288'' = ''0.50''"
  "formatMemory ''16252928'' = ''15.50''"
  "formatMemory ''5243'' = ''0.01''"
  "formatMemory ''5242'' = ''0.00''"
  "formatMemory ''0'' = ''0.00''"
  using formatMemory_natToString [of 1048576] formatMemory_natToString [of 524288]
    formatMemory_natToString [of 16252928] formatMemory_natToString [of 5243]
    formatMemory_natToString [of 5242] formatMemory_natToString [of 0]
  by (simp_all add: natToString.simps digitChar_def twoDigits_def)

lemma floor_301_half: "floor (301 / 2 :: rat) = 150"
proof -
  have "(301 / 2 :: rat) = of_int 301 / of_int 2" by simp
  then have "floor (301 / 2 :: rat) = 301 div 2"
    by (simp only: floor_divide_of_int_eq)
  then show ?thesis by simp
qed

lemma fixed2_samples: "fixed2 (3 / 2) = ''1.50''" "fixed2 0 = ''0.00''"
  by (simp_all add: fixed2_def Let_def floor_301_half natToString.simps digitChar_def
      twoDigits_def)

lemma Number_samples: "Number (Some ''1.50'') = Fin (3 / 2)" "Number (Some ''0.00'') = Fin 0"
  by (simp_all add: Number_def trim_def isWhite_def decimalLiteral_def isDigit_def digitVal_def
      digitsVal_def signed_def exponentPart_def pow10_def radixOf_def)

lemma bytesToGB_samples: "bytesToGB (Fin 1610612736) = Fin (3 / 2)" "bytesToGB (Fin 0) = Fin 0"
proof -
  have "(1610612736 / (1024 * 1024 * 1024) :: rat) = 3 / 2" by simp
  then show "bytesToGB (Fin 1610612736) = Fin (3 / 2)"
    by (simp add: bytesToGB_def fixed2_samples Number_samples del: divide_eq_eq_numeral1)
  show "bytesToGB (Fin 0) = Fin 0"
    by (simp add: bytesToGB_def fixed2_samples Number_samples)
qed

text \<open>
  Claim C9. For a fetched state whose status is "complete", \<open>getInstanceState\<close> returns
  the state with its three memory fields replaced by the converted strings and its traffic
  figures by the converted numbers, and with the power state set to "stopped" whenever the
  converted available memory is "0.00", whatever the remote reported. The converted string
  of a figure of \<open>k\<close> kilobytes, given as a decimal integer, is the integer \<open>n\<close> nearest
  to \<open>100 * k / 1024^2\<close> (the larger one on a tie, which is
  \<open>(200 * k + 1024^2) div (2 * 1024^2)\<close>), printed as \<open>n div 100\<close>, a point and the two
  digits of \<open>n mod 100\<close>: "1.00" for 1048576, "0.50" for 524288, "0.01" for 5243; it is
  "0.00" exactly when the figure is at most 5242. The polling loops read the state through
  \<open>getInstanceState\<close>, so against a remote that keeps reporting such a state a wait for
  "running" uses up all its attempts and a wait for "stopped" ends at the first request.
\<close>

theorem no_available_memory_reads_as_stopped:
  "(status info = ''complete'' \<and> state_S info = Some s \<longrightarrow>
      getInstanceState (Resolved 200 (Some info)) =
        (Some (info\<lparr>state_S := Some
           (s\<lparr>memory := \<lparr>memtotal = formatMemory (memtotal (memory s)),
                           memfree = formatMemory (memfree (memory s)),
                           memavailable = formatMemory (memavailable (memory s))\<rparr>,
               traffic := \<lparr>traffic_in = bytesToGB (traffic_in (traffic s)),
                            traffic_out = bytesToGB (traffic_out (traffic s)),
                            traffic_total = bytesToGB (traffic_total (traffic s))\<rparr>,
               state := (if formatMemory (memavailable (memory s)) = ''0.00''
                         then ''stopped'' else state s)\<rparr>)\<rparr>), [])) \<and>
   (status info = ''complete'' \<and> state_S info = Some s \<and>
    formatMemory (memavailable (memory s)) = ''0.00'' \<longrightarrow>
      powerStateOf (fst (getInstanceState (Resolved 200 (Some info)))) = Some ''stopped'') \<and>
   (k \<le> 9007199254740992 \<longrightarrow>
      formatMemory (natToString k) =
        natToString (((200 * k + 1048576) div 2097152) div 100) @ ''.'' @
        twoDigits (((200 * k + 1048576) div 2097152) mod 100)) \<and>
   formatMemory ''1048576'' = ''1.00'' \<and> formatMemory ''524288'' = ''0.50'' \<and>
   formatMemory ''16252928'' = ''15.50'' \<and> formatMemory ''5243'' = ''0.01'' \<and>
   formatMemory ''5242'' = ''0.00'' \<and>
   bytesToGB (Fin 1610612736) = Fin (3 / 2) \<and> bytesToGB (Fin 0) = Fin 0 \<and>
   (formatMemory (natToString k) = ''0.00'' \<longleftrightarrow> k \<le> 5242) \<and>
   ((\<forall>j. j \<le> 60 \<longrightarrow> reportsNoMemory (api j)) \<longrightarrow>
      createInstanceProgress api cmdApi view None pl =
        Delay 2000 # GetInstanceState # statePolls 60 @ [Report InstanceCreated, Delay 1000] \<and>
      powerInstanceProgress api Shutdown label =
        [GetInstanceState, ShowInformationMessage (PowerSucceeded label), UpdateStatusBar])"
proof -
  have a: "powerStateOf (fst (getInstanceState (Resolved 200 (Some info)))) = Some ''stopped''"
    if "status info = ''complete''" "state_S info = Some s"
       "formatMemory (memavailable (memory s)) = ''0.00''"
    using that by (simp add: getInstanceState_complete powerStateOf_def)
  have b: "createInstanceProgress api cmdApi view None pl =
        Delay 2000 # GetInstanceState # statePolls 60 @ [Report InstanceCreated, Delay 1000] \<and>
      powerInstanceProgress api Shutdown label =
        [GetInstanceState, ShowInformationMessage (PowerSucceeded label), UpdateStatusBar]"
    if h: "\<forall>j. j \<le> 60 \<longrightarrow> reportsNoMemory (api j)"
  proof -
    from h have q: "\<forall>k. k \<le> 60 \<longrightarrow>
        powerStateOf (fst (getInstanceState (api k))) \<noteq> Some ''running'' \<and>
        snd (getInstanceState (api k)) = []"
      by (simp add: reportsNoMemory_stopped)
    from h have z: "reportsNoMemory (api 0)" by simp
    then have "powerStateOf (fst (getInstanceState (api 0))) \<noteq> Some ''running''"
      by (simp add: reportsNoMemory_stopped)
    from instanceStateLoop_never_quiet [OF q this, of 0] z show ?thesis
      by (simp add: createInstanceProgress_def powerInstanceProgress_def truthyStr_def
          reportsNoMemory_stopped powerTarget_def instanceStateLoop_reached)
  qed
  note c = getInstanceState_complete [of info s]
  note d = formatMemory_zero_iff [of k]
  note e = formatMemory_natToString [of k]
  show ?thesis
    apply (intro conjI impI)
    subgoal using c by simp
    subgoal using a by simp
    subgoal using e by (simp only:)
    subgoal by (rule formatMemory_samples)
    subgoal by (rule formatMemory_samples)
    subgoal by (rule formatMemory_samples)
    subgoal by (rule formatMemory_samples)
    subgoal by (rule formatMemory_samples)
    subgoal by (rule bytesToGB_samples)
    subgoal by (rule bytesToGB_samples)
    subgoal using d by simp
    subgoal using b by simp
    subgoal using b by simp
    done
qed

theorem no_available_memory_reads_as_stopped_witness:
  "status (sampleState ''running'' ''0'') = ''complete'' \<and>
   formatMemory ''0'' = ''0.00'' \<and>
   fst (getInstanceState (Resolved 200 (Some (sampleState ''running'' ''0'')))) =
     Some \<lparr>status = ''complete'',
           state_S = Some \<lparr>state = ''stopped'', cpu = Fin 1,
             memory = \<lparr>memtotal = ''1.00'', memfree = ''0.50'', memavailable = ''0.00''\<rparr>,
             traffic = \<lparr>traffic_in = Fin 0, traffic_out = Fin 0, traffic_total = Fin 0\<rparr>\<rparr>\<rparr> \<and>
   powerStateOf (fst (getInstanceState (Resolved 200 (Some (sampleState ''running'' ''0'')))))
     = Some ''stopped'' \<and>
   createInstanceProgress runningWithoutMemory alwaysPending False None samplePlan =
     Delay 2000 # GetInstanceState # statePolls 60 @ [Report InstanceCreated, Delay 1000] \<and>
   powerInstanceProgress runningWithoutMemory Shutdown ''off'' =
     [GetInstanceState, ShowInformationMessage (PowerSucceeded ''off''), UpdateStatusBar]"
proof -
  let ?s = "\<lparr>state = ''running'', cpu = Fin 1,
             memory = \<lparr>memtotal = ''1048576'', memfree = ''524288'', memavailable = ''0''\<rparr>,
             traffic = \<lparr>traffic_in = Fin 0, traffic_out = Fin 0, traffic_total = Fin 0\<rparr>\<rparr>"
  have c: "status (sampleState ''running'' ''0'') = ''complete''"
    and s: "state_S (sampleState ''running'' ''0'') = Some ?s"
    by (simp_all add: sampleState_def)
  have "natToString 0 = ''0''" by (simp add: natToString.simps digitChar_def)
  with formatMemory_zero_iff [of 0] have m: "formatMemory ''0'' = ''0.00''" by simp
  have r: "\<forall>j. j \<le> 60 \<longrightarrow> reportsNoMemory (runningWithoutMemory j)"
    by (simp add: reportsNoMemory_def runningWithoutMemory_def sampleState_def m)
  note T = no_available_memory_reads_as_stopped
    [of "sampleState ''running'' ''0''" ?s 0 runningWithoutMemory alwaysPending False samplePlan "''off''"]
  note g = T [THEN conjunct1, THEN mp, OF conjI [OF c s]]
  note T4 = T [THEN conjunct2, THEN conjunct2, THEN conjunct2]
  note f1 = T4 [THEN conjunct1]
  note f2 = T4 [THEN conjunct2, THEN conjunct1]
  note T10 = T4 [THEN conjunct2, THEN conjunct2, THEN conjunct2, THEN conjunct2,
    THEN conjunct2, THEN conjunct2]
  note f3 = T10 [THEN conjunct1]
  note p = T10 [THEN conjunct2, THEN conjunct2, THEN mp, OF r]
  from g f1 f2 f3 m have st: "fst (getInstanceState (Resolved 200 (Some (sampleState ''running'' ''0'')))) =
     Some \<lparr>status = ''complete'',
           state_S = Some \<lparr>state = ''stopped'', cpu = Fin 1,
             memory = \<lparr>memtotal = ''1.00'', memfree = ''0.50'', memavailable = ''0.00''\<rparr>,
             traffic = \<lparr>traffic_in = Fin 0, traffic_out = Fin 0, traffic_total = Fin 0\<rparr>\<rparr>\<rparr>"
    by (simp add: sampleState_def)
  from c m st p show ?thesis by (simp add: powerStateOf_def)
qed

section \<open>The refresh\<close>

lemma fetchPlanOS_rejected:
  "osReply (id_C p) = Rejected st rm em \<Longrightarrow> fetchPlanOS osReply p = p\<lparr>os_C := OsArray []\<rparr>"
  by (simp add: fetchPlanOS_def)

lemma fetchPlanOS_resolved:
  "osReply (id_C p) = Resolved 200 (Some groups) \<Longrightarrow>
   fetchPlanOS osReply p =
     p\<lparr>os_C := OsArray
          (case os_C p of
             OsString s \<Rightarrow>
               filter (\<lambda>os. natToString (id_O os) \<in> set (split CHR ''|'' s))
                 (concat (map (\<lambda>g. case g of None \<Rightarrow> [] | Some l \<Rightarrow> l) groups))
           | _ \<Rightarrow> concat (map (\<lambda>g. case g of None \<Rightarrow> [] | Some l \<Rightarrow> l) groups))\<rparr>"
proof -
  have ne: "split CHR ''|'' s \<noteq> []" for s
    by (cases s) (simp_all split: list.splits)
  assume "osReply (id_C p) = Resolved 200 (Some groups)"
  then show ?thesis
    by (cases "os_C p") (simp_all add: fetchPlanOS_def Let_def ne)
qed

lemma fetchPlanOS_local:
  "f (id_C p) = g (id_C p) \<Longrightarrow> fetchPlanOS f p = fetchPlanOS g p"
  by (simp add: fetchPlanOS_def)

lemma fetchPlanOS_id [simp]: "id_C (fetchPlanOS f p) = id_C p"
  by (simp add: fetchPlanOS_def Let_def split: reply.splits option.splits)

lemma fetchPlanList_frame:
  "hasEvoPermission (fetchPlanList r f c) = hasEvoPermission c"
  "evoPermissions (fetchPlanList r f c) = evoPermissions c"
  "sshKeyList (fetchPlanList r f c) = sshKeyList c"
  "instanceList (fetchPlanList r f c) = instanceList c"
  "map id_C (planList (fetchPlanList r f c)) = map id_C (planList (fetchPlanList r g c))"
  by (simp_all add: fetchPlanList_def comp_def split: reply.splits option.splits)

lemma fetchSSHKeyList_frame:
  "hasEvoPermission (fetchSSHKeyList t r c) = hasEvoPermission c"
  "evoPermissions (fetchSSHKeyList t r c) = evoPermissions c"
  "planList (fetchSSHKeyList t r c) = planList c"
  "instanceList (fetchSSHKeyList t r c) = instanceList c"
  by (simp_all add: fetchSSHKeyList_def split: reply.splits option.splits)

lemma fetchSSHKeyList_keys:
  "sshKeyList (fetchSSHKeyList t r (fetchPlanList pr f c)) =
   sshKeyList (fetchSSHKeyList t r (fetchPlanList pr g c))"
  by (simp add: fetchSSHKeyList_def fetchPlanList_frame split: reply.splits option.splits)

lemma updateConfig_all:
  assumes "\<forall>rm em. instanceListReply remote \<noteq> Rejected (Some 401) rm em"
    and "evoPermissionsReply remote = Resolved 200 praw"
  shows "fst (updateConfig toLocal True dp remote FlagAll cfg) =
           fetchSSHKeyList toLocal (sshKeyListReply remote)
             (fetchPlanList (planListReply remote) (planToOSReply remote)
                (fst (fetchEvoPermissions (evoPermissionsReply remote)
                   (fst (fetchInstanceList toLocal (instanceListReply remote) cfg)))))"
    and "snd (updateConfig toLocal True dp remote FlagAll cfg) =
           fst (snd (fetchInstanceList toLocal (instanceListReply remote) cfg))
           @ snd (fetchEvoPermissions (evoPermissionsReply remote)
                   (fst (fetchInstanceList toLocal (instanceListReply remote) cfg)))"
    and "hasEvoPermission (fst (fetchEvoPermissions (evoPermissionsReply remote)
                   (fst (fetchInstanceList toLocal (instanceListReply remote) cfg))))"
proof -
  from assms(1) have r: "\<not> snd (snd (fetchInstanceList toLocal (instanceListReply remote) cfg))"
    by (cases "instanceListReply remote") (auto simp: fetchInstanceList_def)
  from assms(2) show p: "hasEvoPermission (fst (fetchEvoPermissions (evoPermissionsReply remote)
                   (fst (fetchInstanceList toLocal (instanceListReply remote) cfg))))"
    by (simp add: fetchEvoPermissions_def)
  from r p show "fst (updateConfig toLocal True dp remote FlagAll cfg) =
           fetchSSHKeyList toLocal (sshKeyListReply remote)
             (fetchPlanList (planListReply remote) (planToOSReply remote)
                (fst (fetchEvoPermissions (evoPermissionsReply remote)
                   (fst (fetchInstanceList toLocal (instanceListReply remote) cfg)))))"
    by (simp add: updateConfig_def Let_def case_prod_beta)
  from r p show "snd (updateConfig toLocal True dp remote FlagAll cfg) =
           fst (snd (fetchInstanceList toLocal (instanceListReply remote) cfg))
           @ snd (fetchEvoPermissions (evoPermissionsReply remote)
                   (fst (fetchInstanceList toLocal (instanceListReply remote) cfg)))"
    by (simp add: updateConfig_def Let_def case_prod_beta)
qed

text \<open>
  Claim C4. In a full refresh that gets past the instance list and the permissions, the
  stored plan list is the admitted plans of the answer, each with the outcome of its own
  request: a plan whose request fails gets the empty OS list, a plan whose request answers
  gets the systems of that answer (those its identifier string names, or all when it names
  none), and no plan's list depends on another plan's request. The permission flag is set,
  the SSH keys are fetched and stored, and neither they nor the notifications nor the
  identifiers of the stored plans depend on how the plan-to-OS requests end.
\<close>

theorem refresh_isolates_failed_os_fetch:
  assumes inst: "\<forall>rm em. instanceListReply remote \<noteq> Rejected (Some 401) rm em"
    and perm: "evoPermissionsReply remote = Resolved 200 praw"
    and plans: "planListReply remote = Resolved 200 (Some l)"
    and keys: "sshKeyListReply remote = Resolved 200 (Some ks)"
  shows
    "planList (fst (updateConfig toLocal True dp remote FlagAll cfg)) =
       map (fetchPlanOS (planToOSReply remote))
         (allowedPlans
            (allow_packages (evoPermissions (fst (updateConfig toLocal True dp remote FlagAll cfg))))
            l) \<and>
     (\<forall>p st rm em. planToOSReply remote (id_C p) = Rejected st rm em \<longrightarrow>
        fetchPlanOS (planToOSReply remote) p = p\<lparr>os_C := OsArray []\<rparr>) \<and>
     (\<forall>p groups. planToOSReply remote (id_C p) = Resolved 200 (Some groups) \<longrightarrow>
        fetchPlanOS (planToOSReply remote) p =
          p\<lparr>os_C := OsArray
               (case os_C p of
                  OsString s \<Rightarrow>
                    filter (\<lambda>os. natToString (id_O os) \<in> set (split CHR ''|'' s))
                      (concat (map (\<lambda>g. case g of None \<Rightarrow> [] | Some l \<Rightarrow> l) groups))
                | _ \<Rightarrow> concat (map (\<lambda>g. case g of None \<Rightarrow> [] | Some l \<Rightarrow> l) groups))\<rparr>) \<and>
     (\<forall>p f. f (id_C p) = planToOSReply remote (id_C p) \<longrightarrow>
        fetchPlanOS f p = fetchPlanOS (planToOSReply remote) p) \<and>
     hasEvoPermission (fst (updateConfig toLocal True dp remote FlagAll cfg)) \<and>
     sshKeyList (fst (updateConfig toLocal True dp remote FlagAll cfg)) =
       map (\<lambda>k. k\<lparr>created_at_K := toLocal (created_at_K k)\<rparr>) ks \<and>
     (\<forall>f. hasEvoPermission (fst (updateConfig toLocal True dp (remote\<lparr>planToOSReply := f\<rparr>) FlagAll cfg))
            = hasEvoPermission (fst (updateConfig toLocal True dp remote FlagAll cfg)) \<and>
          sshKeyList (fst (updateConfig toLocal True dp (remote\<lparr>planToOSReply := f\<rparr>) FlagAll cfg))
            = sshKeyList (fst (updateConfig toLocal True dp remote FlagAll cfg)) \<and>
          map id_C (planList (fst (updateConfig toLocal True dp (remote\<lparr>planToOSReply := f\<rparr>) FlagAll cfg)))
            = map id_C (planList (fst (updateConfig toLocal True dp remote FlagAll cfg))) \<and>
          snd (updateConfig toLocal True dp (remote\<lparr>planToOSReply := f\<rparr>) FlagAll cfg)
            = snd (updateConfig toLocal True dp remote FlagAll cfg))"
proof -
  let ?c = "fst (fetchEvoPermissions (evoPermissionsReply remote)
                   (fst (fetchInstanceList toLocal (instanceListReply remote) cfg)))"
  note u = updateConfig_all [OF inst perm]
  have a: "planList (fst (updateConfig toLocal True dp remote FlagAll cfg)) =
       map (fetchPlanOS (planToOSReply remote))
         (allowedPlans
            (allow_packages (evoPermissions (fst (updateConfig toLocal True dp remote FlagAll cfg))))
            l)"
    by (simp add: u(1) fetchSSHKeyList_frame fetchPlanList_frame)
       (simp add: fetchPlanList_def plans)
  have b: "hasEvoPermission (fst (updateConfig toLocal True dp remote FlagAll cfg))"
    using u(3) by (simp add: u(1) fetchSSHKeyList_frame fetchPlanList_frame)
  have c: "sshKeyList (fst (updateConfig toLocal True dp remote FlagAll cfg)) =
       map (\<lambda>k. k\<lparr>created_at_K := toLocal (created_at_K k)\<rparr>) ks"
    by (simp add: u(1) fetchSSHKeyList_def keys)
  have d: "hasEvoPermission (fst (updateConfig toLocal True dp (remote\<lparr>planToOSReply := f\<rparr>) FlagAll cfg))
            = hasEvoPermission (fst (updateConfig toLocal True dp remote FlagAll cfg)) \<and>
          sshKeyList (fst (updateConfig toLocal True dp (remote\<lparr>planToOSReply := f\<rparr>) FlagAll cfg))
            = sshKeyList (fst (updateConfig toLocal True dp remote FlagAll cfg)) \<and>
          map id_C (planList (fst (updateConfig toLocal True dp (remote\<lparr>planToOSReply := f\<rparr>) FlagAll cfg)))
            = map id_C (planList (fst (updateConfig toLocal True dp remote FlagAll cfg))) \<and>
          snd (updateConfig toLocal True dp (remote\<lparr>planToOSReply := f\<rparr>) FlagAll cfg)
            = snd (updateConfig toLocal True dp remote FlagAll cfg)" for f
  proof -
    have i: "\<forall>rm em. instanceListReply (remote\<lparr>planToOSReply := f\<rparr>) \<noteq> Rejected (Some 401) rm em"
      using inst by simp
    have p: "evoPermissionsReply (remote\<lparr>planToOSReply := f\<rparr>) = Resolved 200 praw"
      using perm by simp
    note v = updateConfig_all [OF i p]
    show ?thesis
      using fetchPlanList_frame(5) [of "planListReply remote" f ?c "planToOSReply remote"]
        fetchSSHKeyList_keys [of toLocal "sshKeyListReply remote" "planListReply remote" f ?c
          "planToOSReply remote"]
      by (simp add: u(1,2) v(1,2) fetchSSHKeyList_frame fetchPlanList_frame)
  qed
  show ?thesis
    apply (intro conjI allI impI)
    subgoal by (rule a)
    subgoal by (rule fetchPlanOS_rejected)
    subgoal by (rule fetchPlanOS_resolved)
    subgoal by (rule fetchPlanOS_local)
    subgoal by (rule b)
    subgoal by (rule c)
    subgoal using d by blast
    subgoal using d by blast
    subgoal using d by blast
    subgoal using d by blast
    done
qed

theorem refresh_isolates_failed_os_fetch_witness:
  "planToOSReply sampleRemote 2 = Rejected (Some 500) None ''Request failed with status code 500'' \<and>
   planList (fst (updateConfig id True None sampleRemote FlagAll sampleConfig)) =
     [\<lparr>id_C = 1, name_C = ''small'', os_C = OsArray [\<lparr>id_O = 7, name_O = ''debian''\<rparr>]\<rparr>,
      \<lparr>id_C = 2, name_C = ''medium'', os_C = OsArray []\<rparr>,
      \<lparr>id_C = 3, name_C = ''large'',
         os_C = OsArray [\<lparr>id_O = 7, name_O = ''debian''\<rparr>, \<lparr>id_O = 8, name_O = ''alpine''\<rparr>]\<rparr>] \<and>
   hasEvoPermission (fst (updateConfig id True None sampleRemote FlagAll sampleConfig)) \<and>
   sshKeyList (fst (updateConfig id True None sampleRemote FlagAll sampleConfig)) =
     [\<lparr>id_K = 5, name_K = ''laptop'', created_at_K = ''2025-01-01''\<rparr>]"
proof -
  have i: "\<forall>rm em. instanceListReply sampleRemote \<noteq> Rejected (Some 401) rm em"
    by (simp add: sampleRemote_def)
  have p: "evoPermissionsReply sampleRemote =
             Resolved 200 (Some \<lparr>max_time_R = Fin 24, allow_packages_R = None\<rparr>)"
    by (simp add: sampleRemote_def)
  have l: "planListReply sampleRemote =
        Resolved 200
          (Some [\<lparr>id_C = 1, name_C = ''small'', os_C = OsString ''7''\<rparr>,
                 \<lparr>id_C = 2, name_C = ''medium'', os_C = OsString ''7|8''\<rparr>,
                 \<lparr>id_C = 3, name_C = ''large'', os_C = OsAbsent\<rparr>])"
    by (simp add: sampleRemote_def)
  have k: "sshKeyListReply sampleRemote =
        Resolved 200 (Some [\<lparr>id_K = 5, name_K = ''laptop'', created_at_K = ''2025-01-01''\<rparr>])"
    by (simp add: sampleRemote_def)
  have e: "planList (fst (updateConfig id True None sampleRemote FlagAll sampleConfig)) =
     [\<lparr>id_C = 1, name_C = ''small'', os_C = OsArray [\<lparr>id_O = 7, name_O = ''debian''\<rparr>]\<rparr>,
      \<lparr>id_C = 2, name_C = ''medium'', os_C = OsArray []\<rparr>,
      \<lparr>id_C = 3, name_C = ''large'',
         os_C = OsArray [\<lparr>id_O = 7, name_O = ''debian''\<rparr>, \<lparr>id_O = 8, name_O = ''alpine''\<rparr>]\<rparr>]"
    by code_simp
  have f: "planToOSReply sampleRemote 2 = Rejected (Some 500) None ''Request failed with status code 500''"
    by (simp add: sampleRemote_def sampleOsReply_def)
  from refresh_isolates_failed_os_fetch [where toLocal = id and dp = None and cfg = sampleConfig, OF i p l k] e f
  show ?thesis by simp
qed

section \<open>The expiration check\<close>

lemma checkInstanceExpiration_never_clears:
  assumes "instanceList cfg \<noteq> []"
  shows "\<exists>cfg' fx. checkInstanceExpiration parseDate now choice cfg = Returned (cfg', fx) \<and>
           instanceList cfg' = instanceList cfg \<and>
           instanceState cfg' = instanceState cfg \<and>
           updateStatusBarInterval cfg' = updateStatusBarInterval cfg \<and>
           (\<forall>t. ClearInterval t \<notin> set fx) \<and>
           (\<forall>n. ShowErrorMessage (InstanceExpired n) \<notin> set fx)"
  using assms
  by (cases "instanceList cfg")
     (auto simp: checkInstanceExpiration_def Let_def split: option.splits)

lemma checkInstanceExpiration_empty:
  "instanceList cfg = [] \<Longrightarrow>
   checkInstanceExpiration parseDate now choice cfg = Threw (typeErrorMessage ''expiration_at'')"
  by (simp add: checkInstanceExpiration_def)

text \<open>
  Claim C10. With an empty instance list the function throws before it looks at the
  reminder flag. With an instance that expired 4 seconds ago, the reminder flag unset and
  a remote that would now list no instance, the function starts the refresh, finds the
  list it has just read the instance from still non-empty, and returns: the state is not
  cleared, no message is shown and the timer keeps running.
\<close>

theorem expired_instance_is_not_cleared:
  "checkInstanceExpiration sampleDate 5000 Dismissed (sampleExpired\<lparr>instanceList := [], doNotRemindExpiration := True\<rparr>)
     = Threw (typeErrorMessage ''expiration_at'') \<and>
   checkInstanceExpiration sampleDate 5000 Dismissed sampleExpired
     = Returned (sampleExpired, [StartUpdateConfigInstance]) \<and>
   instanceState sampleExpired \<noteq> None \<and>
   updateStatusBarInterval sampleExpired = Some 1"
  by (simp add: checkInstanceExpiration_def sampleExpired_def sampleDate_def sampleConfig_def)

section \<open>Back and forward\<close>

lemma waiting_updateView_iff: "waiting u \<Longrightarrow> waiting (updateView cfg u) = viewOK cfg u"
proof (cases "viewOK cfg u")
  case True
  assume "waiting u"
  with True show ?thesis by (simp add: updateView_waiting)
next
  case False
  assume "waiting u"
  with updateView_failed(1) [OF False] False show ?thesis by (auto simp: waiting_def)
qed

lemma viewOK_cong:
  assumes "currentStep u = currentStep u2" "id_P (plan u) = id_P (plan u2)"
  shows "viewOK cfg u = viewOK cfg u2"
proof -
  from assms(2) have "samePlanId (plan u) = samePlanId (plan u2)"
    by (intro ext) (simp add: samePlanId_def)
  with assms(1) show ?thesis by (simp add: viewOK_def)
qed

lemma viewOK_other: "currentStep u \<noteq> SelectOS \<Longrightarrow> viewOK cfg u"
  by (simp add: viewOK_def)

lemma settled_updateView_failed:
  assumes "waiting u" "\<not> viewOK cfg u"
  shows "settled (updateView cfg u) \<noteq> Some Completed" "\<not> isCompleted (updateView cfg u)"
proof -
  from assms have "\<not> isCompleted u" "resolveCalls u = []"
    by (simp_all add: waiting_def)
  with updateView_failed(1) [OF assms(2)]
  obtain m where "resolveCalls (updateView cfg u) = [ErrorResult m]" by auto
  then show "settled (updateView cfg u) \<noteq> Some Completed" by (simp add: settled_def)
  from \<open>\<not> isCompleted u\<close> show "\<not> isCompleted (updateView cfg u)" by simp
qed

text \<open>What an event does to a waiting run, step by step.\<close>

lemma fire_waiting_Hide:
  "waiting w \<Longrightarrow> closed (fire cfg w Hide) \<and> \<not> isCompleted (fire cfg w Hide)
     \<and> settled (fire cfg w Hide) \<noteq> Some Completed"
  by (simp add: waiting_def closed_def onDidHide_def resolve_def settled_def)

lemma fire_waiting_Back:
  assumes "waiting w"
  shows "fire cfg w (Accept (Some BackItem) v) =
           (if 0 < stepIndex (currentStep w)
            then updateView cfg (w\<lparr>currentStep := stepDec (currentStep w)\<rparr>) else w)"
  using assms by (simp add: waiting_def onDidAccept_def)

lemma resolve_fields [simp]:
  "plan (resolve r w) = plan w"
  "currentStep (resolve r w) = currentStep w"
  "isCompleted (resolve r w) = isCompleted w"
  "disposed (resolve r w) = disposed w"
  "expectingHide (resolve r w) = expectingHide w"
  by (simp_all add: resolve_def)

lemma agree_mono: "agree k p q \<Longrightarrow> j \<le> k \<Longrightarrow> agree j p q"
  by (simp add: agree_def)

lemma agree_trans: "agree k p q \<Longrightarrow> agree k q r \<Longrightarrow> agree k p r"
  by (simp add: agree_def)

lemma agree_sym: "agree k p q \<Longrightarrow> agree k q p"
  by (simp add: agree_def)

lemma agree_refl [simp]: "agree k p p"
  by (simp add: agree_def)

text \<open>An event that leaves the run waiting without moving it forward keeps the request
  and stays at the step or goes one step back.\<close>

lemma fire_not_advanced:
  assumes w: "waiting w" and w': "waiting (fire cfg w e)" and n: "\<not> advanced w (fire cfg w e)"
  shows "plan (fire cfg w e) = plan w \<and>
         stepIndex (currentStep (fire cfg w e)) \<le> stepIndex (currentStep w)"
proof (cases e)
  case Hide
  with fire_waiting_Hide [OF w, of cfg] w' show ?thesis by (simp add: waiting_def closed_def)
next
  case (Accept sel v)
  show ?thesis
  proof (cases "sel = Some BackItem")
    case True
    with Accept w show ?thesis
      by (cases "currentStep w") (simp_all add: waiting_def onDidAccept_def)
  next
    case False
    with Accept w w' n show ?thesis
      by (cases "currentStep w")
         (auto simp: waiting_def onDidAccept_def advanced_def split: option.splits sum.splits if_splits)
  qed
qed

text \<open>An event that moves a waiting run forward to another waiting state does the same to
  every waiting run at the same step whose request agrees on the fields filled so far.\<close>

lemma fire_forward_sim:
  assumes w: "waiting w" and w2: "waiting w2"
    and st: "currentStep w2 = currentStep w"
    and ag: "agree (stepIndex (currentStep w)) (plan w) (plan w2)"
    and w': "waiting (fire cfg w e)"
    and ad: "advanced w (fire cfg w e)"
  shows "waiting (fire cfg w2 e) \<and>
         currentStep (fire cfg w2 e) = currentStep (fire cfg w e) \<and>
         stepIndex (currentStep (fire cfg w e)) = stepIndex (currentStep w) + 1 \<and>
         stepIndex (currentStep (fire cfg w e)) \<le> 4 \<and>
         agree (stepIndex (currentStep w)) (plan (fire cfg w e)) (plan w) \<and>
         agree (stepIndex (currentStep w) + 1) (plan (fire cfg w e)) (plan (fire cfg w2 e))"
proof (cases e)
  case Hide
  with fire_waiting_Hide [OF w, of cfg] w' show ?thesis by (simp add: waiting_def closed_def)
next
  case (Accept sel v)
  from w have nd: "\<not> disposed w" by (simp add: waiting_def)
  from w2 have nd2: "\<not> disposed w2" by (simp add: waiting_def)
  from w' have nc: "\<not> isCompleted (fire cfg w e)" by (simp add: waiting_def)
  show ?thesis
  proof (cases "sel = Some BackItem")
    case True
    with Accept w ad nc show ?thesis
      by (cases "currentStep w") (simp_all add: waiting_def onDidAccept_def advanced_def)
  next
    case False
    show ?thesis
    proof (cases "currentStep w")
      case SelectPlan
      show ?thesis
      proof (cases "\<exists>it. sel = Some it \<and> truthyStr (itemDescription it)")
        case True
        then obtain it where it: "sel = Some it" "truthyStr (itemDescription it)" by blast
        let ?u = "w\<lparr>plan := (plan w)\<lparr>id_P := Number (itemDescription it)\<rparr>, currentStep := SelectOS\<rparr>"
        let ?u2 = "w2\<lparr>plan := (plan w2)\<lparr>id_P := Number (itemDescription it)\<rparr>, currentStep := SelectOS\<rparr>"
        have f: "fire cfg w e = updateView cfg ?u"
          using Accept False SelectPlan it nd by (simp add: onDidAccept_def)
        have f2: "fire cfg w2 e = updateView cfg ?u2"
          using Accept False SelectPlan it nd2 st by (simp add: onDidAccept_def)
        have "waiting ?u" "waiting ?u2" using w w2 by simp_all
        with w' f have "viewOK cfg ?u" by (simp add: waiting_updateView_iff)
        moreover have "viewOK cfg ?u = viewOK cfg ?u2" by (rule viewOK_cong) simp_all
        ultimately have "waiting (fire cfg w2 e)"
          using \<open>waiting ?u2\<close> f2 by (simp add: waiting_updateView_iff)
        then show ?thesis using f f2 SelectPlan by (simp add: agree_def)
      next
        case False
        with Accept \<open>sel \<noteq> Some BackItem\<close> SelectPlan nd ad nc show ?thesis
          by (auto simp: onDidAccept_def advanced_def split: option.splits)
      qed
    next
      case SelectOS
      show ?thesis
      proof (cases "\<exists>it. sel = Some it \<and> truthyStr (itemDescription it)")
        case True
        then obtain it where it: "sel = Some it" "truthyStr (itemDescription it)" by blast
        let ?u = "w\<lparr>plan := (plan w)\<lparr>os_P := Number (itemDescription it)\<rparr>, currentStep := EnterTime\<rparr>"
        let ?u2 = "w2\<lparr>plan := (plan w2)\<lparr>os_P := Number (itemDescription it)\<rparr>, currentStep := EnterTime\<rparr>"
        have f: "fire cfg w e = updateView cfg ?u"
          using Accept False SelectOS it nd by (simp add: onDidAccept_def)
        have f2: "fire cfg w2 e = updateView cfg ?u2"
          using Accept False SelectOS it nd2 st by (simp add: onDidAccept_def)
        have "waiting ?u2" using w2 by simp
        then have "waiting (fire cfg w2 e)"
          using f2 by (simp add: waiting_updateView_iff viewOK_other)
        then show ?thesis using f f2 SelectOS ag by (simp add: agree_def)
      next
        case False
        with Accept \<open>sel \<noteq> Some BackItem\<close> SelectOS nd ad nc show ?thesis
          by (auto simp: onDidAccept_def advanced_def split: option.splits)
      qed
    next
      case EnterTime
      show ?thesis
      proof (cases "validateTime cfg v")
        case (Inl m)
        with Accept False EnterTime nd ad nc show ?thesis
          by (simp add: onDidAccept_def advanced_def)
      next
        case (Inr t)
        let ?u = "w\<lparr>plan := (plan w)\<lparr>time := t\<rparr>, currentStep := SelectSSHKey\<rparr>"
        let ?u2 = "w2\<lparr>plan := (plan w2)\<lparr>time := t\<rparr>, currentStep := SelectSSHKey\<rparr>"
        have f: "fire cfg w e = updateView cfg ?u"
          using Accept False EnterTime Inr nd by (simp add: onDidAccept_def)
        have f2: "fire cfg w2 e = updateView cfg ?u2"
          using Accept False EnterTime Inr nd2 st by (simp add: onDidAccept_def)
        have "waiting ?u2" using w2 by simp
        then have "waiting (fire cfg w2 e)"
          using f2 by (simp add: waiting_updateView_iff viewOK_other)
        then show ?thesis using f f2 EnterTime ag by (simp add: agree_def)
      qed
    next
      case SelectSSHKey
      show ?thesis
      proof (cases sel)
        case None
        with Accept SelectSSHKey nd ad nc show ?thesis
          by (simp add: onDidAccept_def advanced_def)
      next
        case (Some it)
        let ?k = "if truthyNum (Number (itemDescription it)) then Number (itemDescription it) else NaN"
        let ?u = "w\<lparr>plan := (plan w)\<lparr>sshKey := ?k\<rparr>, currentStep := SelectBootScript\<rparr>"
        let ?u2 = "w2\<lparr>plan := (plan w2)\<lparr>sshKey := ?k\<rparr>, currentStep := SelectBootScript\<rparr>"
        have f: "fire cfg w e = updateView cfg ?u"
          using Accept False SelectSSHKey Some nd by (simp add: onDidAccept_def)
        have f2: "fire cfg w2 e = updateView cfg ?u2"
          using Accept False SelectSSHKey Some nd2 st by (simp add: onDidAccept_def)
        have "waiting ?u2" using w2 by simp
        then have "waiting (fire cfg w2 e)"
          using f2 by (simp add: waiting_updateView_iff viewOK_other)
        then show ?thesis using f f2 SelectSSHKey ag by (simp add: agree_def)
      qed
    next
      case SelectBootScript
      with Accept False nd ad nc w' show ?thesis
        by (cases sel) (simp_all add: onDidAccept_def advanced_def)
    next
      case Done
      with Accept False nd ad nc show ?thesis
        by (simp add: onDidAccept_def advanced_def)
    next
      case Cancelled
      with Accept False nd ad nc show ?thesis
        by (simp add: onDidAccept_def advanced_def)
    qed
  qed
qed

lemma plan_bootScript_eq:
  "agree 4 p q \<Longrightarrow> p\<lparr>bootScript := b\<rparr> = q\<lparr>bootScript := b\<rparr>"
  by (cases p, cases q) (simp add: agree_def)

text \<open>A completing event completes every waiting run at the same step, with the same
  request when the requests agree on the first four fields.\<close>

lemma fire_complete_sim:
  assumes w: "waiting w" and w2: "waiting w2"
    and st: "currentStep w2 = currentStep w"
    and ag: "agree (stepIndex (currentStep w)) (plan w) (plan w2)"
    and c: "isCompleted (fire cfg w e)"
  shows "currentStep w = SelectBootScript \<and>
         advanced w (fire cfg w e) \<and>
         settled (fire cfg w e) = Some Completed \<and>
         settled (fire cfg w2 e) = Some Completed \<and>
         plan (fire cfg w2 e) = plan (fire cfg w e)"
proof (cases e)
  case Hide
  with fire_waiting_Hide [OF w, of cfg] c show ?thesis by simp
next
  case (Accept sel v)
  from w have nd: "\<not> disposed w" and ni: "\<not> isCompleted w" by (simp_all add: waiting_def)
  from w2 have nd2: "\<not> disposed w2" by (simp add: waiting_def)
  show ?thesis
  proof (cases "sel = Some BackItem")
    case True
    with Accept nd ni c show ?thesis
      by (simp add: onDidAccept_def split: if_splits)
  next
    case False
    show ?thesis
    proof (cases "currentStep w = SelectBootScript")
      case False
      with Accept \<open>sel \<noteq> Some BackItem\<close> nd ni c show ?thesis
        by (cases "currentStep w")
           (simp_all add: onDidAccept_def split: option.splits sum.splits if_splits)
    next
      case True
      show ?thesis
      proof (cases sel)
        case None
        with Accept True nd ni c show ?thesis by (simp add: onDidAccept_def)
      next
        case (Some it)
        let ?b = "if itemLabel it = noBootScriptLabel then [] else itemLabel it"
        have f: "fire cfg w e = qp_hide (resolve Completed
                   (w\<lparr>plan := (plan w)\<lparr>bootScript := ?b\<rparr>, isCompleted := True\<rparr>))"
          using Accept False True Some nd by (simp add: onDidAccept_def)
        have f2: "fire cfg w2 e = qp_hide (resolve Completed
                   (w2\<lparr>plan := (plan w2)\<lparr>bootScript := ?b\<rparr>, isCompleted := True\<rparr>))"
          using Accept False True Some nd2 st by (simp add: onDidAccept_def)
        from complete_resolved [OF w, of "(plan w)\<lparr>bootScript := ?b\<rparr>"] f
        have s1: "settled (fire cfg w e) = Some Completed" by (simp add: settled_def)
        from complete_resolved [OF w2, of "(plan w2)\<lparr>bootScript := ?b\<rparr>"] f2
        have s2: "settled (fire cfg w2 e) = Some Completed" by (simp add: settled_def)
        from ag True have "agree 4 (plan w) (plan w2)" by simp
        then have "(plan w2)\<lparr>bootScript := ?b\<rparr> = (plan w)\<lparr>bootScript := ?b\<rparr>"
          by (rule plan_bootScript_eq [symmetric])
        then have p: "plan (fire cfg w2 e) = plan (fire cfg w e)" by (simp add: f f2)
        from c ni have "advanced w (fire cfg w e)" by (simp add: advanced_def)
        with True s1 s2 p show ?thesis by simp
      qed
    qed
  qed
qed

text \<open>An event that did not complete a waiting run did not settle it as completed.\<close>

lemma fire_not_completed:
  assumes w: "waiting w" and n: "\<not> isCompleted (fire cfg w e)"
  shows "settled (fire cfg w e) \<noteq> Some Completed"
proof (cases e)
  case Hide
  with fire_waiting_Hide [OF w, of cfg] show ?thesis by simp
next
  case (Accept sel v)
  from w have nd: "\<not> disposed w" by (simp add: waiting_def)
  have U: "settled (updateView cfg u) \<noteq> Some Completed" if "waiting u" for u
  proof (cases "viewOK cfg u")
    case True
    with that have "waiting (updateView cfg u)" by (simp add: waiting_updateView_iff)
    then show ?thesis by (simp add: settled_waiting)
  next
    case False
    with that show ?thesis by (rule settled_updateView_failed)
  qed
  have W: "settled w \<noteq> Some Completed" using w by (simp add: settled_waiting)
  show ?thesis
  proof (cases "sel = Some BackItem")
    case True
    with Accept nd w U W show ?thesis
      by (simp add: onDidAccept_def split: if_splits)
  next
    case False
    with Accept nd n w U W show ?thesis
      by (cases "currentStep w")
         (auto simp: onDidAccept_def split: option.splits sum.splits if_splits)
  qed
qed

subsection \<open>The kept events\<close>

lemma slots_0 [simp]: "slots m 0 = []"
  by (simp add: slots_def List.map_filter_def)

lemma slots_Suc: "m j = Some e \<Longrightarrow> slots m (Suc j) = slots m j @ [e]"
  by (simp add: slots_def List.map_filter_def)

lemma slots_upd: "j \<le> k \<Longrightarrow> slots (m(k \<mapsto> e)) j = slots m j"
  unfolding slots_def List.map_filter_def
  by (induction j) auto

lemma slots_upd_Suc: "slots (m(k \<mapsto> e)) (Suc k) = slots m k @ [e]"
  by (simp add: slots_upd slots_Suc)

lemma length_slots: "(\<forall>i. i < j \<longrightarrow> m i \<noteq> None) \<Longrightarrow> length (slots m j) = j"
proof (induction j)
  case 0
  then show ?case by simp
next
  case (Suc j)
  then obtain e where "m j = Some e" by auto
  with Suc show ?case by (simp add: slots_Suc)
qed

lemma stepIndex_inj: "stepIndex a = stepIndex b \<Longrightarrow> a = b"
  by (cases a; cases b) simp_all

lemma committed_waiting: "waiting w \<Longrightarrow> committed w = None"
  by (simp add: committed_def settled_waiting)

subsection \<open>The run by forward transitions only\<close>

lemma replayed_start: "waiting w0 \<Longrightarrow> currentStep w0 = SelectPlan \<Longrightarrow> replayed cfg w0 w0 m"
  by (simp add: replayed_def run_Nil)

lemma replayed_forward:
  assumes r: "replayed cfg w0 w m"
    and w': "waiting (fire cfg w e)"
    and ad: "advanced w (fire cfg w e)"
  shows "replayed cfg w0 (fire cfg w e) (m(stepIndex (currentStep w) \<mapsto> e))"
proof -
  let ?k = "stepIndex (currentStep w)"
  let ?w2 = "run cfg w0 (slots m ?k)"
  from r have w: "waiting w" by (simp add: replayed_def)
  from r have old: "(\<forall>i. i < j \<longrightarrow> m i \<noteq> None) \<and> waiting (run cfg w0 (slots m j)) \<and>
      stepIndex (currentStep (run cfg w0 (slots m j))) = j \<and>
      agree j (plan w) (plan (run cfg w0 (slots m j)))" if "j \<le> ?k" for j
    using that unfolding replayed_def by blast
  from old [of ?k] have w2: "waiting ?w2" and s2: "currentStep ?w2 = currentStep w"
    and a2: "agree ?k (plan w) (plan ?w2)" and d2: "\<forall>i. i < ?k \<longrightarrow> m i \<noteq> None"
    by (auto intro: stepIndex_inj)
  note F = fire_forward_sim [OF w w2 s2 a2 w' ad]
  have new: "(\<forall>i. i < j \<longrightarrow> (m(?k \<mapsto> e)) i \<noteq> None) \<and>
      waiting (run cfg w0 (slots (m(?k \<mapsto> e)) j)) \<and>
      stepIndex (currentStep (run cfg w0 (slots (m(?k \<mapsto> e)) j))) = j \<and>
      agree j (plan (fire cfg w e)) (plan (run cfg w0 (slots (m(?k \<mapsto> e)) j)))"
    if j: "j \<le> ?k + 1" for j
  proof (cases "j \<le> ?k")
    case True
    from F have "agree ?k (plan (fire cfg w e)) (plan w)" by simp
    from this True have "agree j (plan (fire cfg w e)) (plan w)" by (rule agree_mono)
    with old [OF True] have "agree j (plan (fire cfg w e)) (plan (run cfg w0 (slots m j)))"
      by (blast intro: agree_trans)
    with old [OF True] True show ?thesis by (simp add: slots_upd)
  next
    case False
    with j have j': "j = Suc ?k" by simp
    have "run cfg w0 (slots (m(?k \<mapsto> e)) (Suc ?k)) = fire cfg ?w2 e"
      by (simp add: slots_upd_Suc run_append run_Cons run_Nil)
    with F d2 j' show ?thesis by simp
  qed
  from F w' new show ?thesis by (simp add: replayed_def)
qed

lemma replayed_not_advanced:
  assumes r: "replayed cfg w0 w m"
    and w': "waiting (fire cfg w e)"
    and ad: "\<not> advanced w (fire cfg w e)"
  shows "replayed cfg w0 (fire cfg w e) m"
proof -
  from r have w: "waiting w" and k4: "stepIndex (currentStep w) \<le> 4"
    by (simp_all add: replayed_def)
  from r have old: "(\<forall>i. i < j \<longrightarrow> m i \<noteq> None) \<and> waiting (run cfg w0 (slots m j)) \<and>
      stepIndex (currentStep (run cfg w0 (slots m j))) = j \<and>
      agree j (plan w) (plan (run cfg w0 (slots m j)))" if "j \<le> stepIndex (currentStep w)" for j
    using that unfolding replayed_def by blast
  note N = fire_not_advanced [OF w w' ad]
  have "(\<forall>i. i < j \<longrightarrow> m i \<noteq> None) \<and> waiting (run cfg w0 (slots m j)) \<and>
      stepIndex (currentStep (run cfg w0 (slots m j))) = j \<and>
      agree j (plan (fire cfg w e)) (plan (run cfg w0 (slots m j)))"
    if "j \<le> stepIndex (currentStep (fire cfg w e))" for j
  proof -
    from that N have "j \<le> stepIndex (currentStep w)" by simp
    from old [OF this] N show ?thesis by simp
  qed
  with w' N k4 show ?thesis unfolding replayed_def by auto
qed

lemma replayed_complete:
  assumes r: "replayed cfg w0 w m"
    and p: "committed (fire cfg w e) = Some p"
  shows "committed (run cfg w0 (slots (m(stepIndex (currentStep w) \<mapsto> e)) 5)) = Some p \<and>
         length (slots (m(stepIndex (currentStep w) \<mapsto> e)) 5) = 5 \<and>
         advanced w (fire cfg w e)"
proof -
  let ?k = "stepIndex (currentStep w)"
  let ?w2 = "run cfg w0 (slots m ?k)"
  from r have w: "waiting w" by (simp add: replayed_def)
  from r have old: "(\<forall>i. i < ?k \<longrightarrow> m i \<noteq> None) \<and> waiting ?w2 \<and>
      stepIndex (currentStep ?w2) = ?k \<and> agree ?k (plan w) (plan ?w2)"
    unfolding replayed_def by blast
  then have w2: "waiting ?w2" and s2: "currentStep ?w2 = currentStep w"
    and a2: "agree ?k (plan w) (plan ?w2)" and d2: "\<forall>i. i < ?k \<longrightarrow> m i \<noteq> None"
    by (auto intro: stepIndex_inj)
  from p have s: "settled (fire cfg w e) = Some Completed" and pl: "p = plan (fire cfg w e)"
    by (auto simp: committed_def split: if_splits)
  have ic: "isCompleted (fire cfg w e)"
  proof (rule ccontr)
    assume "\<not> isCompleted (fire cfg w e)"
    from fire_not_completed [OF w this] s show False by simp
  qed
  note C = fire_complete_sim [OF w w2 s2 a2 ic]
  then have k: "?k = 4" by simp
  have "slots (m(?k \<mapsto> e)) 5 = slots m ?k @ [e]"
    using slots_upd_Suc [of m ?k e] k by simp
  then have run: "run cfg w0 (slots (m(?k \<mapsto> e)) 5) = fire cfg ?w2 e"
    by (simp add: run_append run_Cons run_Nil)
  have "\<forall>i. i < 5 \<longrightarrow> (m(?k \<mapsto> e)) i \<noteq> None"
    using d2 k by auto
  then have len: "length (slots (m(?k \<mapsto> e)) 5) = 5" by (rule length_slots)
  from C have "settled (fire cfg ?w2 e) = Some Completed"
    and "plan (fire cfg ?w2 e) = plan (fire cfg w e)" and "advanced w (fire cfg w e)"
    by blast+
  with run pl len show ?thesis by (simp add: committed_def)
qed

lemma replay_commits:
  assumes "replayed cfg w0 w m" and "settled (run cfg w es) = None"
    and "committed (run cfg w (es @ [e])) = Some p"
  shows "committed (run cfg w0 (slots (lastForward cfg w (es @ [e]) m) 5)) = Some p \<and>
         length (slots (lastForward cfg w (es @ [e]) m) 5) = 5"
  using assms
proof (induction es arbitrary: w m)
  case Nil
  from Nil.prems(3) have p: "committed (fire cfg w e) = Some p"
    by (simp add: run_Cons run_Nil)
  note R = replayed_complete [OF Nil.prems(1) p]
  then have "lastForward cfg w ([] @ [e]) m = m(stepIndex (currentStep w) \<mapsto> e)"
    by (simp only: append_Nil lastForward.simps if_True)
  with R show ?case by (simp only:)
next
  case (Cons e' es)
  from Cons.prems(1) have w: "waiting w" by (simp add: replayed_def)
  have "resolveCalls (fire cfg w e') = []"
  proof (rule ccontr)
    assume "resolveCalls (fire cfg w e') \<noteq> []"
    then obtain r where "settled (fire cfg w e') = Some r"
      by (cases "resolveCalls (fire cfg w e')") (simp_all add: settled_def)
    then have "settled (run cfg w (e' # es)) = Some r"
      by (simp add: run_Cons settled_run)
    with Cons.prems(2) show False by simp
  qed
  with fire_waiting_or_resolved [OF w, of cfg e'] have w': "waiting (fire cfg w e')" by simp
  from Cons.prems(2) have o: "settled (run cfg (fire cfg w e') es) = None"
    by (simp add: run_Cons)
  from Cons.prems(3) have p: "committed (run cfg (fire cfg w e') (es @ [e])) = Some p"
    by (simp add: run_Cons)
  show ?case
  proof (cases "advanced w (fire cfg w e')")
    case True
    then have "lastForward cfg w ((e' # es) @ [e]) m =
        lastForward cfg (fire cfg w e') (es @ [e]) (m(stepIndex (currentStep w) \<mapsto> e'))"
      by (simp only: append_Cons lastForward.simps if_True)
    with Cons.IH [OF replayed_forward [OF Cons.prems(1) w' True] o p] show ?thesis
      by (simp only:)
  next
    case False
    then have "lastForward cfg w ((e' # es) @ [e]) m =
        lastForward cfg (fire cfg w e') (es @ [e]) m"
      by (simp only: append_Cons lastForward.simps if_False)
    with Cons.IH [OF replayed_not_advanced [OF Cons.prems(1) w' False] o p] show ?thesis
      by (simp only:)
  qed
qed

subsection \<open>Going back\<close>

lemma back_keeps_plan: "plan (onDidAccept cfg (Some BackItem) v w) = plan w"
  by (simp add: onDidAccept_def)

lemma back_decrements:
  "0 < stepIndex (currentStep w) \<Longrightarrow>
   stepIndex (currentStep (onDidAccept cfg (Some BackItem) v w)) + 1 = stepIndex (currentStep w)"
  by (cases "currentStep w") (simp_all add: onDidAccept_def)

lemma back_on_first_step:
  "currentStep w = SelectPlan \<Longrightarrow> onDidAccept cfg (Some BackItem) v w = w"
  by (simp add: onDidAccept_def)

lemma onDidAccept_sameExcept:
  "sameExcept (currentStep w) (plan w) (plan (onDidAccept cfg sel v w))"
  by (cases "currentStep w")
     (simp_all add: onDidAccept_def split: option.splits sum.splits)

lemma fire_sameExcept: "sameExcept (currentStep w) (plan w) (plan (fire cfg w e))"
proof (cases e)
  case (Accept sel v)
  have "sameExcept (currentStep w) (plan w) (plan w)"
    by (cases "currentStep w") simp_all
  with Accept onDidAccept_sameExcept [of w cfg sel v] show ?thesis by simp
next
  case Hide
  then show ?thesis by (cases "currentStep w") simp_all
qed

lemma planItem_not_back: "BackItem \<notin> set (map planItem ps)"
  by (induction ps) (simp_all add: planItem_def)

lemma back_offered:
  assumes "viewOK cfg w" "stepIndex (currentStep w) \<le> 4"
  shows "(BackItem \<in> set (qp_items (updateView cfg w))) = (currentStep w \<noteq> SelectPlan)"
proof (cases "currentStep w")
  case SelectOS
  with assms(1) show ?thesis
    by (auto simp: viewOK_def updateView_def qp_show_def Let_def dest: osFalsy_empty
        split: option.splits)
qed (use assms(2) planItem_not_back in \<open>simp_all add: updateView_def qp_show_def\<close>)

text \<open>
  Claim C3. Whatever back and forward transitions a run makes, if it ends in the event that
  settles it as completed, the committed request is the one that the five last forward
  events of the run, one per step and in the order of the steps, build on their own from
  the start. An event changes at most the field of the step it arrives at; going back
  changes no field, lowers the step index by exactly one, and does nothing on the first
  step; and every rendered step but the first offers the back item.
\<close>

theorem back_and_forward_commit_last_values:
  assumes start: "createInstanceMultiStep cfg default_plan = Inr w0"
    and unsettled: "settled (run cfg w0 es) = None"
    and completed: "committed (run cfg w0 (es @ [e])) = Some p"
  shows "committed (run cfg w0 (forwardOnly cfg w0 (es @ [e]))) = Some p \<and>
         length (forwardOnly cfg w0 (es @ [e])) = 5 \<and>
         (\<forall>w e. sameExcept (currentStep w) (plan w) (plan (fire cfg w e))) \<and>
         (\<forall>w v. plan (onDidAccept cfg (Some BackItem) v w) = plan w) \<and>
         (\<forall>w v. 0 < stepIndex (currentStep w) \<longrightarrow>
            stepIndex (currentStep (onDidAccept cfg (Some BackItem) v w)) + 1
              = stepIndex (currentStep w)) \<and>
         (\<forall>w v. currentStep w = SelectPlan \<longrightarrow> onDidAccept cfg (Some BackItem) v w = w) \<and>
         (\<forall>w. viewOK cfg w \<and> stepIndex (currentStep w) \<le> 4 \<longrightarrow>
            (BackItem \<in> set (qp_items (updateView cfg w))) = (currentStep w \<noteq> SelectPlan))"
proof -
  from start_waiting [OF start] have "replayed cfg w0 w0 Map.empty"
    by (simp add: replayed_start)
  from replay_commits [OF this unsettled completed]
  have "committed (run cfg w0 (forwardOnly cfg w0 (es @ [e]))) = Some p \<and>
        length (forwardOnly cfg w0 (es @ [e])) = 5"
    by (simp add: forwardOnly_def)
  then show ?thesis
    using fire_sameExcept back_keeps_plan back_decrements back_on_first_step back_offered
    by blast
qed

theorem back_and_forward_commit_last_values_witness:
  "createInstanceMultiStep sampleConfig None = Inr sampleStart \<and>
   settled (run sampleConfig sampleStart
      [Accept (Some (Item ''small'' (Some ''3''))) [],
       Accept (Some (Item ''debian'' (Some ''7''))) [],
       Accept None ''5'',
       Accept (Some BackItem) [],
       Accept None ''12'',
       Accept (Some (Item ''laptop'' (Some ''5''))) [],
       Accept (Some BackItem) [],
       Accept (Some (Item noSSHKeyLabel None)) []]) = None \<and>
   committed (run sampleConfig sampleStart
      [Accept (Some (Item ''small'' (Some ''3''))) [],
       Accept (Some (Item ''debian'' (Some ''7''))) [],
       Accept None ''5'',
       Accept (Some BackItem) [],
       Accept None ''12'',
       Accept (Some (Item ''laptop'' (Some ''5''))) [],
       Accept (Some BackItem) [],
       Accept (Some (Item noSSHKeyLabel None)) [],
       Accept (Some (Item ''setup.sh'' None)) []])
     = Some \<lparr>id_P = Fin 3, os_P = Fin 7, time = Fin 12, sshKey = NaN, bootScript = ''setup.sh''\<rparr> \<and>
   forwardOnly sampleConfig sampleStart
      [Accept (Some (Item ''small'' (Some ''3''))) [],
       Accept (Some (Item ''debian'' (Some ''7''))) [],
       Accept None ''5'',
       Accept (Some BackItem) [],
       Accept None ''12'',
       Accept (Some (Item ''laptop'' (Some ''5''))) [],
       Accept (Some BackItem) [],
       Accept (Some (Item noSSHKeyLabel None)) [],
       Accept (Some (Item ''setup.sh'' None)) []]
     = [Accept (Some (Item ''small'' (Some ''3''))) [],
        Accept (Some (Item ''debian'' (Some ''7''))) [],
        Accept None ''12'',
        Accept (Some (Item noSSHKeyLabel None)) [],
        Accept (Some (Item ''setup.sh'' None)) []] \<and>
   committed (run sampleConfig sampleStart
      [Accept (Some (Item ''small'' (Some ''3''))) [],
       Accept (Some (Item ''debian'' (Some ''7''))) [],
       Accept None ''12'',
       Accept (Some (Item noSSHKeyLabel None)) [],
       Accept (Some (Item ''setup.sh'' None)) []])
     = Some \<lparr>id_P = Fin 3, os_P = Fin 7, time = Fin 12, sshKey = NaN, bootScript = ''setup.sh''\<rparr>"
proof -
  let ?es = "[Accept (Some (Item ''small'' (Some ''3''))) [],
       Accept (Some (Item ''debian'' (Some ''7''))) [],
       Accept None ''5'',
       Accept (Some BackItem) [],
       Accept None ''12'',
       Accept (Some (Item ''laptop'' (Some ''5''))) [],
       Accept (Some BackItem) [],
       Accept (Some (Item noSSHKeyLabel None)) []]"
  let ?e = "Accept (Some (Item ''setup.sh'' None)) []"
  have h1: "createInstanceMultiStep sampleConfig None = Inr sampleStart"
    by code_simp
  have h2: "settled (run sampleConfig sampleStart ?es) = None"
    by code_simp
  have h3: "committed (run sampleConfig sampleStart (?es @ [?e]))
     = Some \<lparr>id_P = Fin 3, os_P = Fin 7, time = Fin 12, sshKey = NaN, bootScript = ''setup.sh''\<rparr>"
    by code_simp
  have h4: "forwardOnly sampleConfig sampleStart (?es @ [?e])
     = [Accept (Some (Item ''small'' (Some ''3''))) [],
        Accept (Some (Item ''debian'' (Some ''7''))) [],
        Accept None ''12'',
        Accept (Some (Item noSSHKeyLabel None)) [],
        Accept (Some (Item ''setup.sh'' None)) []]"
    by code_simp
  from back_and_forward_commit_last_values [OF h1 h2 h3] h1 h2 h3 h4
  show ?thesis by simp
qed

end
